theory Spec2Isabelle
  imports Main "HOL-Library.AList"
begin

section \<open>Errors\<close>

text \<open>
  Every exception the redaction code can raise is a value. \<open>SyntaxError\<close> is raised by
  the platform (\<open>new RegExp\<close> on an invalid pattern, \<open>JSON.parse\<close> on invalid text),
  \<open>TypeError\<close> by \<open>new URL\<close> on an invalid URL, \<open>UnexpectedError\<close> by the code itself
  (\<open>common/errors.ts\<close>). \<open>Unmodelled\<close> is not an exception of the program: it marks an
  input on which the platform models below do not say what the platform does.
\<close>

datatype error = SyntaxError | TypeError | UnexpectedError string | Unmodelled

section \<open>Platform model: strings\<close>

text \<open>
  \<open>String.prototype.includes\<close>: the argument occurs as a contiguous substring. A string is
  a list of code units; the models below cover code units below 128.
\<close>

fun startsWith :: "string \<Rightarrow> string \<Rightarrow> bool" where
  "startsWith s [] = True"
| "startsWith [] (c # cs) = False"
| "startsWith (x # xs) (c # cs) = (x = c \<and> startsWith xs cs)"

fun str_includes :: "string \<Rightarrow> string \<Rightarrow> bool" where
  "str_includes [] t = (t = [])"
| "str_includes (x # xs) t = (startsWith (x # xs) t \<or> str_includes xs t)"

section \<open>Platform model: regular expressions\<close>

text \<open>
  \<open>new RegExp(credential, 'g')\<close> reads the credential as an ECMAScript pattern. The model
  covers the patterns built from literal characters, the wildcard \<open>.\<close>, an escaped syntax
  character, and the greedy quantifiers \<open>*\<close>, \<open>+\<close> and \<open>?\<close> on one such atom. A quantifier
  with nothing to repeat and a lone trailing backslash are syntax errors, as on the
  platform; groups, classes, alternation, anchors, braces, lazy quantifiers and the other
  escapes are outside the model.
\<close>

datatype atom = Lit char | AnyChar

datatype quant = Once | Star | Plus | Opt

type_synonym pattern = "(atom \<times> quant) list"

definition isSyntaxChar :: "char \<Rightarrow> bool" where
  "isSyntaxChar c = (c = CHR 0x5C \<or> c \<in> set ''^$.*+?()[]{}|/'')"

definition isQuantChar :: "char \<Rightarrow> bool" where
  "isQuantChar c = (c \<in> set ''*+?'')"

definition isUnmodelledChar :: "char \<Rightarrow> bool" where
  "isUnmodelledChar c = (c \<in> set ''^$()[]{}|'')"

definition quantOf :: "char \<Rightarrow> quant" where
  "quantOf c = (if c = CHR ''*'' then Star else if c = CHR ''+'' then Plus else Opt)"

text \<open>The quantifier that follows an atom, and the rest of the pattern text.\<close>

fun parseQuant :: "string \<Rightarrow> error + (quant \<times> string)" where
  "parseQuant [] = Inr (Once, [])"
| "parseQuant (q # rest) =
     (if isQuantChar q then
        (case rest of
           [] \<Rightarrow> Inr (quantOf q, [])
         | r # rest' \<Rightarrow>
             if r = CHR ''?'' then Inl Unmodelled
             else if isQuantChar r then Inl SyntaxError
             else Inr (quantOf q, rest))
      else Inr (Once, q # rest))"

text \<open>One atom, and the rest of the pattern text.\<close>

fun parseAtom :: "string \<Rightarrow> error + (atom \<times> string)" where
  "parseAtom [] = Inl SyntaxError"
| "parseAtom (c # rest) =
     (if c = CHR 0x5C then
        (case rest of
           [] \<Rightarrow> Inl SyntaxError
         | e # rest' \<Rightarrow> if isSyntaxChar e then Inr (Lit e, rest') else Inl Unmodelled)
      else if isQuantChar c then Inl SyntaxError
      else if isUnmodelledChar c then Inl Unmodelled
      else if c = CHR ''.'' then Inr (AnyChar, rest)
      else Inr (Lit c, rest))"

lemma parseQuant_length:
  "parseQuant s = Inr (q, rest) \<Longrightarrow> length rest \<le> length s"
  by (cases s) (auto split: if_splits list.splits)

lemma parseAtom_length:
  "parseAtom s = Inr (a, rest) \<Longrightarrow> length rest < length s"
  by (cases s) (auto split: if_splits list.splits)

function parsePattern :: "string \<Rightarrow> error + pattern" where
  "parsePattern s =
     (if s = [] then Inr []
      else
        (case parseAtom s of
           Inl e \<Rightarrow> Inl e
         | Inr (a, rest) \<Rightarrow>
             (case parseQuant rest of
                Inl e \<Rightarrow> Inl e
              | Inr (q, rest') \<Rightarrow>
                  (case parsePattern rest' of
                     Inl e \<Rightarrow> Inl e
                   | Inr ps \<Rightarrow> Inr ((a, q) # ps)))))"
  by pat_completeness auto
termination
proof (relation "measure length")
  show "wf (measure length)" by simp
next
  fix s :: string and x2 :: "atom \<times> string" and x y x2a and xa :: quant and ya :: string
  assume "s \<noteq> []" and a: "parseAtom s = Inr x2" and x2: "(x, y) = x2"
    and q: "parseQuant y = Inr x2a" and x2a: "(xa, ya) = x2a"
  from a x2 have "length y < length s" using parseAtom_length [of s x y] by simp
  moreover from q x2a have "length ya \<le> length y" using parseQuant_length [of y xa ya] by simp
  ultimately show "(ya, s) \<in> measure length" by simp
qed

declare parsePattern.simps [simp del]

text \<open>The wildcard matches every character but a line terminator.\<close>

fun atomMatches :: "atom \<Rightarrow> char \<Rightarrow> bool" where
  "atomMatches (Lit x) c = (x = c)"
| "atomMatches AnyChar c = (c \<noteq> CHR 0x0A \<and> c \<noteq> CHR 0x0D)"

text \<open>
  The backtracking matcher at one position: the length of the match the platform finds
  first (a greedy quantifier tries the longer repetition before the shorter one), or
  \<open>None\<close> when the pattern does not match at this position.
\<close>

fun matchLen :: "pattern \<Rightarrow> string \<Rightarrow> nat option" where
  "matchLen [] s = Some 0"
| "matchLen ((a, Once) # ps) [] = None"
| "matchLen ((a, Once) # ps) (c # cs) =
     (if atomMatches a c then map_option Suc (matchLen ps cs) else None)"
| "matchLen ((a, Plus) # ps) [] = None"
| "matchLen ((a, Plus) # ps) (c # cs) =
     (if atomMatches a c then map_option Suc (matchLen ((a, Star) # ps) cs) else None)"
| "matchLen ((a, Star) # ps) [] = matchLen ps []"
| "matchLen ((a, Star) # ps) (c # cs) =
     (if atomMatches a c then
        (case matchLen ((a, Star) # ps) cs of
           Some n \<Rightarrow> Some (Suc n)
         | None \<Rightarrow> matchLen ps (c # cs))
      else matchLen ps (c # cs))"
| "matchLen ((a, Opt) # ps) [] = matchLen ps []"
| "matchLen ((a, Opt) # ps) (c # cs) =
     (if atomMatches a c then
        (case matchLen ps cs of
           Some n \<Rightarrow> Some (Suc n)
         | None \<Rightarrow> matchLen ps (c # cs))
      else matchLen ps (c # cs))"

text \<open>
  The replacement text of \<open>String.prototype.replace\<close>: in a pattern without groups,
  \<open>$$\<close> stands for a dollar sign, \<open>$&\<close> for the matched text, \<open>$`\<close> for the text before
  the match and \<open>$'\<close> for the text after it; every other character stands for itself.
\<close>

fun expandReplacement :: "string \<Rightarrow> string \<Rightarrow> string \<Rightarrow> string \<Rightarrow> string" where
  "expandReplacement [] m pre post = []"
| "expandReplacement [c] m pre post = [c]"
| "expandReplacement (c # d # rest) m pre post =
     (if c = CHR ''$'' then
        (if d = CHR ''$'' then CHR ''$'' # expandReplacement rest m pre post
         else if d = CHR ''&'' then m @ expandReplacement rest m pre post
         else if d = CHR 0x60 then pre @ expandReplacement rest m pre post
         else if d = CHR 0x27 then post @ expandReplacement rest m pre post
         else c # expandReplacement (d # rest) m pre post)
      else c # expandReplacement (d # rest) m pre post)"

text \<open>
  \<open>payload.replace(regexp, replacement)\<close> with the global flag: scanning from the left,
  every match is replaced and the scan goes on behind it; after an empty match the scan
  moves one character on. \<open>pre\<close> is the text already scanned.
\<close>

fun replaceFrom :: "pattern \<Rightarrow> string \<Rightarrow> string \<Rightarrow> string \<Rightarrow> string" where
  "replaceFrom ps repl pre [] =
     (case matchLen ps [] of
        None \<Rightarrow> []
      | Some n \<Rightarrow> expandReplacement repl [] pre [])"
| "replaceFrom ps repl pre (c # cs) =
     (case matchLen ps (c # cs) of
        None \<Rightarrow> c # replaceFrom ps repl (pre @ [c]) cs
      | Some 0 \<Rightarrow> expandReplacement repl [] pre (c # cs) @ c # replaceFrom ps repl (pre @ [c]) cs
      | Some (Suc k) \<Rightarrow>
          expandReplacement repl (c # take k cs) pre (drop k cs)
            @ replaceFrom ps repl (pre @ c # take k cs) (drop k cs))"

definition regexReplaceAll :: "string \<Rightarrow> string \<Rightarrow> string \<Rightarrow> error + string" where
  "regexReplaceAll source repl payload =
     (case parsePattern source of
        Inl e \<Rightarrow> Inl e
      | Inr ps \<Rightarrow> Inr (replaceFrom ps repl [] payload))"

section \<open>Platform model: JSON\<close>

text \<open>
  A JSON value as \<open>JSON.parse\<close> builds it. Numbers are the integers a double holds
  exactly; an object is the list of its properties in the order the platform enumerates
  them.
\<close>

datatype json =
    JNull
  | JBool bool
  | JNum int
  | JStr string
  | JArr "json list"
  | JObj "(string \<times> json) list"

text \<open>JavaScript truthiness of a JSON value, as \<open>if (value)\<close> tests it.\<close>

fun truthy :: "json \<Rightarrow> bool" where
  "truthy JNull = False"
| "truthy (JBool b) = b"
| "truthy (JNum n) = (n \<noteq> 0)"
| "truthy (JStr s) = (s \<noteq> [])"
| "truthy (JArr xs) = True"
| "truthy (JObj kvs) = True"

text \<open>\<open>Array.prototype.join\<close>.\<close>

fun joinWith :: "string \<Rightarrow> string list \<Rightarrow> string" where
  "joinWith sep [] = []"
| "joinWith sep [x] = x"
| "joinWith sep (x # y # ys) = x @ sep @ joinWith sep (y # ys)"

definition charCode :: "char \<Rightarrow> nat" where
  "charCode c = of_char c"

definition digitChar :: "nat \<Rightarrow> char" where
  "digitChar d = char_of (48 + d)"

fun showNat :: "nat \<Rightarrow> string" where
  "showNat n = (if n < 10 then [digitChar n] else showNat (n div 10) @ [digitChar (n mod 10)])"

declare showNat.simps [simp del]

definition showInt :: "int \<Rightarrow> string" where
  "showInt i = (if i < 0 then CHR ''-'' # showNat (nat (- i)) else showNat (nat i))"

definition hexChar :: "nat \<Rightarrow> char" where
  "hexChar d = (if d < 10 then char_of (48 + d) else char_of (87 + d))"

text \<open>\<open>JSON.stringify\<close> on a string: the quoted text with its escapes.\<close>

definition escapeChar :: "char \<Rightarrow> string" where
  "escapeChar c =
     (if c = CHR 0x22 then [CHR 0x5C, CHR 0x22]
      else if c = CHR 0x5C then [CHR 0x5C, CHR 0x5C]
      else if c = CHR 0x08 then [CHR 0x5C, CHR ''b'']
      else if c = CHR 0x09 then [CHR 0x5C, CHR ''t'']
      else if c = CHR 0x0A then [CHR 0x5C, CHR ''n'']
      else if c = CHR 0x0C then [CHR 0x5C, CHR ''f'']
      else if c = CHR 0x0D then [CHR 0x5C, CHR ''r'']
      else if charCode c < 32 then
        [CHR 0x5C, CHR ''u'', CHR ''0'', CHR ''0'',
         hexChar (charCode c div 16), hexChar (charCode c mod 16)]
      else [c])"

definition quoteString :: "string \<Rightarrow> string" where
  "quoteString s = CHR 0x22 # concat (map escapeChar s) @ [CHR 0x22]"

fun JSON_stringify :: "json \<Rightarrow> string" where
  "JSON_stringify JNull = ''null''"
| "JSON_stringify (JBool b) = (if b then ''true'' else ''false'')"
| "JSON_stringify (JNum n) = showInt n"
| "JSON_stringify (JStr s) = quoteString s"
| "JSON_stringify (JArr xs) = ''['' @ joinWith '','' (map JSON_stringify xs) @ '']''"
| "JSON_stringify (JObj kvs) =
     ''{'' @ joinWith '','' (map (\<lambda>(k, v). quoteString k @ '':'' @ JSON_stringify v) kvs) @ ''}''"

text \<open>
  \<open>JSON.parse\<close>, by recursive descent. The grammar is RFC 8259; a number with a
  fraction or an exponent, an integer beyond \<open>2^53 - 1\<close> and a \<open>\u\<close> escape of a code
  unit from 128 on are outside the model.
\<close>

definition isWs :: "char \<Rightarrow> bool" where
  "isWs c = (c = CHR 0x20 \<or> c = CHR 0x09 \<or> c = CHR 0x0A \<or> c = CHR 0x0D)"

definition skipWs :: "string \<Rightarrow> string" where
  "skipWs s = dropWhile isWs s"

definition isDigit :: "char \<Rightarrow> bool" where
  "isDigit c = (48 \<le> charCode c \<and> charCode c \<le> 57)"

definition digitVal :: "char \<Rightarrow> int" where
  "digitVal c = int (charCode c) - 48"

definition hexVal :: "char \<Rightarrow> nat option" where
  "hexVal c =
     (if isDigit c then Some (charCode c - 48)
      else if 97 \<le> charCode c \<and> charCode c \<le> 102 then Some (charCode c - 87)
      else if 65 \<le> charCode c \<and> charCode c \<le> 70 then Some (charCode c - 55)
      else None)"

text \<open>The characters of a string literal behind its opening quote, and the rest.\<close>

fun parseStringBody :: "string \<Rightarrow> error + (string \<times> string)" where
  "parseStringBody [] = Inl SyntaxError"
| "parseStringBody (c # cs) =
     (if c = CHR 0x22 then Inr ([], cs)
      else if charCode c < 32 then Inl SyntaxError
      else if c = CHR 0x5C then
        (case cs of
           [] \<Rightarrow> Inl SyntaxError
         | e # es \<Rightarrow>
             if e = CHR ''u'' then
               (case es of
                  h1 # h2 # h3 # h4 # rest \<Rightarrow>
                    (case (hexVal h1, hexVal h2, hexVal h3, hexVal h4) of
                       (Some a, Some b, Some c', Some d) \<Rightarrow>
                         if a = 0 \<and> b = 0 \<and> c' < 8 then
                           (case parseStringBody rest of
                              Inl err \<Rightarrow> Inl err
                            | Inr (s, rest') \<Rightarrow> Inr (char_of (16 * c' + d) # s, rest'))
                         else Inl Unmodelled
                     | _ \<Rightarrow> Inl SyntaxError)
                | _ \<Rightarrow> Inl SyntaxError)
             else
               (case (if e = CHR 0x22 then Some (CHR 0x22)
                      else if e = CHR 0x5C then Some (CHR 0x5C)
                      else if e = CHR ''/'' then Some (CHR ''/'')
                      else if e = CHR ''b'' then Some (CHR 0x08)
                      else if e = CHR ''f'' then Some (CHR 0x0C)
                      else if e = CHR ''n'' then Some (CHR 0x0A)
                      else if e = CHR ''r'' then Some (CHR 0x0D)
                      else if e = CHR ''t'' then Some (CHR 0x09)
                      else None) of
                  None \<Rightarrow> Inl SyntaxError
                | Some x \<Rightarrow>
                    (case parseStringBody es of
                       Inl err \<Rightarrow> Inl err
                     | Inr (s, rest') \<Rightarrow> Inr (x # s, rest'))))
      else
        (case parseStringBody cs of
           Inl err \<Rightarrow> Inl err
         | Inr (s, rest') \<Rightarrow> Inr (c # s, rest')))"

definition readInt :: "string \<Rightarrow> int" where
  "readInt ds = foldl (\<lambda>n c. 10 * n + digitVal c) 0 ds"

text \<open>A number behind its optional sign: \<open>0\<close> or a digit sequence without leading zero.\<close>

definition parseDigits :: "string \<Rightarrow> error + (int \<times> string)" where
  "parseDigits s =
     (case s of
        [] \<Rightarrow> Inl SyntaxError
      | c # cs \<Rightarrow>
          if \<not> isDigit c then Inl SyntaxError
          else
            (let ds = (if c = CHR ''0'' then [c] else takeWhile isDigit (c # cs));
                 rest = drop (length ds) (c # cs);
                 n = readInt ds
             in if rest \<noteq> [] \<and> hd rest \<in> set ''.eE'' then Inl Unmodelled
                else if n > 9007199254740991 then Inl Unmodelled
                else Inr (n, rest)))"

definition parseNumber :: "string \<Rightarrow> error + (json \<times> string)" where
  "parseNumber s =
     (case s of
        [] \<Rightarrow> Inl SyntaxError
      | c # cs \<Rightarrow>
          if c = CHR ''-'' then
            (case parseDigits cs of
               Inl e \<Rightarrow> Inl e
             | Inr (n, rest) \<Rightarrow> Inr (JNum (- n), rest))
          else
            (case parseDigits (c # cs) of
               Inl e \<Rightarrow> Inl e
             | Inr (n, rest) \<Rightarrow> Inr (JNum n, rest)))"

text \<open>
  A property name that is an array index (a canonical numeric string below
  \<open>2^32 - 1\<close>): the platform enumerates these first, in ascending order, and the other
  names in the order of their creation.
\<close>

definition isArrayIndex :: "string \<Rightarrow> bool" where
  "isArrayIndex k =
     (k \<noteq> [] \<and> list_all isDigit k \<and> (k = ''0'' \<or> hd k \<noteq> CHR ''0'')
      \<and> length k \<le> 10 \<and> readInt k < 4294967295)"

fun insertIndex :: "string \<Rightarrow> json \<Rightarrow> (string \<times> json) list \<Rightarrow> (string \<times> json) list" where
  "insertIndex k v [] = [(k, v)]"
| "insertIndex k v ((k', v') # kvs) =
     (if isArrayIndex k' \<and> readInt k' < readInt k then (k', v') # insertIndex k v kvs
      else (k, v) # (k', v') # kvs)"

text \<open>Defining a property on an object: a name that exists keeps its place.\<close>

definition objSet :: "(string \<times> json) list \<Rightarrow> string \<Rightarrow> json \<Rightarrow> (string \<times> json) list" where
  "objSet kvs k v =
     (if k \<in> fst ` set kvs then AList.update k v kvs
      else if isArrayIndex k then insertIndex k v kvs
      else kvs @ [(k, v)])"

text \<open>
  The descent takes fuel, one unit per nested call; \<open>JSON_parse\<close> gives it more than
  the text has characters. \<open>parseElems\<close> reads the elements of an array behind its
  opening bracket, \<open>parseMembers\<close> the members of an object behind its opening brace,
  onto the properties read so far.
\<close>

fun parseValue :: "nat \<Rightarrow> string \<Rightarrow> error + (json \<times> string)"
  and parseElems :: "nat \<Rightarrow> string \<Rightarrow> error + (json list \<times> string)"
  and parseMembers :: "nat \<Rightarrow> (string \<times> json) list \<Rightarrow> string \<Rightarrow> error + ((string \<times> json) list \<times> string)"
where
  "parseValue 0 s = Inl Unmodelled"
| "parseValue (Suc f) s =
     (case skipWs s of
        [] \<Rightarrow> Inl SyntaxError
      | c # cs \<Rightarrow>
          if c = CHR 0x22 then
            (case parseStringBody cs of
               Inl e \<Rightarrow> Inl e
             | Inr (str, rest) \<Rightarrow> Inr (JStr str, rest))
          else if c = CHR ''['' then
            (case skipWs cs of
               [] \<Rightarrow> Inl SyntaxError
             | d # ds \<Rightarrow>
                 if d = CHR '']'' then Inr (JArr [], ds)
                 else
                   (case parseElems f cs of
                      Inl e \<Rightarrow> Inl e
                    | Inr (vs, rest) \<Rightarrow> Inr (JArr vs, rest)))
          else if c = CHR ''{'' then
            (case skipWs cs of
               [] \<Rightarrow> Inl SyntaxError
             | d # ds \<Rightarrow>
                 if d = CHR ''}'' then Inr (JObj [], ds)
                 else
                   (case parseMembers f [] cs of
                      Inl e \<Rightarrow> Inl e
                    | Inr (kvs, rest) \<Rightarrow> Inr (JObj kvs, rest)))
          else if startsWith (c # cs) ''null'' then Inr (JNull, drop 4 (c # cs))
          else if startsWith (c # cs) ''true'' then Inr (JBool True, drop 4 (c # cs))
          else if startsWith (c # cs) ''false'' then Inr (JBool False, drop 5 (c # cs))
          else parseNumber (c # cs))"
| "parseElems 0 s = Inl Unmodelled"
| "parseElems (Suc f) s =
     (case parseValue f s of
        Inl e \<Rightarrow> Inl e
      | Inr (v, rest) \<Rightarrow>
          (case skipWs rest of
             [] \<Rightarrow> Inl SyntaxError
           | d # ds \<Rightarrow>
               if d = CHR '']'' then Inr ([v], ds)
               else if d = CHR '','' then
                 (case parseElems f ds of
                    Inl e \<Rightarrow> Inl e
                  | Inr (vs, rest') \<Rightarrow> Inr (v # vs, rest'))
               else Inl SyntaxError))"
| "parseMembers 0 acc s = Inl Unmodelled"
| "parseMembers (Suc f) acc s =
     (case skipWs s of
        [] \<Rightarrow> Inl SyntaxError
      | q # qs \<Rightarrow>
          if q \<noteq> CHR 0x22 then Inl SyntaxError
          else
            (case parseStringBody qs of
               Inl e \<Rightarrow> Inl e
             | Inr (k, rest) \<Rightarrow>
                 (case skipWs rest of
                    [] \<Rightarrow> Inl SyntaxError
                  | c # cs \<Rightarrow>
                      if c \<noteq> CHR '':'' then Inl SyntaxError
                      else
                        (case parseValue f cs of
                           Inl e \<Rightarrow> Inl e
                         | Inr (v, rest') \<Rightarrow>
                             (case skipWs rest' of
                                [] \<Rightarrow> Inl SyntaxError
                              | d # ds \<Rightarrow>
                                  if d = CHR ''}'' then Inr (objSet acc k v, ds)
                                  else if d = CHR '','' then parseMembers f (objSet acc k v) ds
                                  else Inl SyntaxError)))))"

definition JSON_parse :: "string \<Rightarrow> error + json" where
  "JSON_parse text =
     (case parseValue (Suc (length text)) text of
        Inl e \<Rightarrow> Inl e
      | Inr (v, rest) \<Rightarrow> if skipWs rest = [] then Inr v else Inl SyntaxError)"

section \<open>Platform model: URL\<close>

text \<open>
  The WHATWG URL record of an \<open>http\<close> or \<open>https\<close> URL, as far as the code reads it:
  the serialised path, the query and the fragment (\<open>None\<close> for null).
\<close>

record url =
  pathname :: string
  query :: "string option"
  fragment :: "string option"

definition isAscii :: "string \<Rightarrow> bool" where
  "isAscii s = list_all (\<lambda>c. charCode c < 128) s"

definition upperHexChar :: "nat \<Rightarrow> char" where
  "upperHexChar d = (if d < 10 then char_of (48 + d) else char_of (55 + d))"

definition percentEncode :: "char \<Rightarrow> string" where
  "percentEncode c = [CHR ''%'', upperHexChar (charCode c div 16), upperHexChar (charCode c mod 16)]"

definition isC0OrSpace :: "char \<Rightarrow> bool" where
  "isC0OrSpace c = (charCode c \<le> 32)"

definition isTabOrNewline :: "char \<Rightarrow> bool" where
  "isTabOrNewline c = (c = CHR 0x09 \<or> c = CHR 0x0A \<or> c = CHR 0x0D)"

text \<open>The percent-encode sets of the URL standard, on code units below 128.\<close>

definition inC0Set :: "char \<Rightarrow> bool" where
  "inC0Set c = (charCode c < 32 \<or> charCode c > 126)"

definition inFragmentSet :: "char \<Rightarrow> bool" where
  "inFragmentSet c = (inC0Set c \<or> c = CHR 0x20 \<or> c = CHR 0x22 \<or> c = CHR ''<'' \<or> c = CHR ''>'' \<or> c = CHR 0x60)"

definition inQuerySet :: "char \<Rightarrow> bool" where
  "inQuerySet c = (inC0Set c \<or> c = CHR 0x20 \<or> c = CHR 0x22 \<or> c = CHR ''#'' \<or> c = CHR ''<'' \<or> c = CHR ''>'')"

definition inSpecialQuerySet :: "char \<Rightarrow> bool" where
  "inSpecialQuerySet c = (inQuerySet c \<or> c = CHR 0x27)"

definition inPathSet :: "char \<Rightarrow> bool" where
  "inPathSet c = (inQuerySet c \<or> c = CHR ''?'' \<or> c = CHR 0x60 \<or> c = CHR ''{'' \<or> c = CHR ''}'')"

definition encodeWith :: "(char \<Rightarrow> bool) \<Rightarrow> string \<Rightarrow> string" where
  "encodeWith inSet s = concat (map (\<lambda>c. if inSet c then percentEncode c else [c]) s)"

definition isSingleDot :: "string \<Rightarrow> bool" where
  "isSingleDot b = (b \<in> set [''.'', ''%2e'', ''%2E''])"

definition isDoubleDot :: "string \<Rightarrow> bool" where
  "isDoubleDot b =
     (b \<in> set [''..'', ''.%2e'', ''.%2E'', ''%2e.'', ''%2E.'',
                ''%2e%2e'', ''%2E%2e'', ''%2e%2E'', ''%2E%2E''])"

text \<open>
  The end of a path segment in the path state: a double-dot segment shortens the path,
  a single-dot segment is dropped, and either leaves an empty last segment when no
  slash follows it.
\<close>

definition finishSegment :: "string list \<Rightarrow> string \<Rightarrow> bool \<Rightarrow> string list" where
  "finishSegment segs buf slash =
     (if isDoubleDot buf then (if slash then butlast segs else butlast segs @ [[]])
      else if isSingleDot buf then (if slash then segs else segs @ [[]])
      else segs @ [buf])"

text \<open>
  The path state. With a state override (the \<open>pathname\<close> setter) \<open>?\<close> and \<open>#\<close> do not
  end the path. The result is the list of segments and the input from the \<open>?\<close> or
  \<open>#\<close> that ended the path.
\<close>

fun pathState :: "bool \<Rightarrow> string list \<Rightarrow> string \<Rightarrow> string \<Rightarrow> string list \<times> string" where
  "pathState ov segs buf [] = (finishSegment segs buf False, [])"
| "pathState ov segs buf (c # cs) =
     (if c = CHR ''/'' \<or> c = CHR 0x5C then pathState ov (finishSegment segs buf True) [] cs
      else if \<not> ov \<and> (c = CHR ''?'' \<or> c = CHR ''#'') then (finishSegment segs buf False, c # cs)
      else pathState ov segs (buf @ (if inPathSet c then percentEncode c else [c])) cs)"

text \<open>The path start state of a special URL: one leading slash is consumed.\<close>

definition pathStart :: "bool \<Rightarrow> string \<Rightarrow> string list \<times> string" where
  "pathStart ov input =
     (case input of
        [] \<Rightarrow> pathState ov [] [] []
      | c # cs \<Rightarrow>
          if c = CHR ''/'' \<or> c = CHR 0x5C then pathState ov [] [] cs
          else pathState ov [] [] (c # cs))"

definition serializePath :: "string list \<Rightarrow> string" where
  "serializePath segs = concat (map (\<lambda>seg. CHR ''/'' # seg) segs)"

text \<open>
  \<open>new URL(baseUrl).origin\<close>. The model covers a base URL that is \<open>http://\<close> or
  \<open>https://\<close>, a host of lower-case letters, digits, hyphens and dots whose last label
  begins with a letter (so it is a domain, not an IPv4 address) and none of whose labels is
  in the \<open>xn--\<close> form, an optional port, and then nothing or a path, query or fragment.
  The port state fails on a character that is not a digit and on a port above 65535; the
  origin is the scheme, the host, and the port unless it is the scheme's default port.
\<close>

definition isHostChar :: "char \<Rightarrow> bool" where
  "isHostChar c =
     ((97 \<le> charCode c \<and> charCode c \<le> 122) \<or> isDigit c \<or> c = CHR ''-'' \<or> c = CHR ''.'')"

definition isLowerLetter :: "char \<Rightarrow> bool" where
  "isLowerLetter c = (97 \<le> charCode c \<and> charCode c \<le> 122)"

text \<open>The last label of a host, a single trailing dot left aside.\<close>

definition lastLabel :: "string \<Rightarrow> string" where
  "lastLabel host =
     (let h = (if host \<noteq> [] \<and> last host = CHR ''.'' then butlast host else host)
      in rev (takeWhile (\<lambda>c. c \<noteq> CHR ''.'') (rev h)))"

fun labels :: "string \<Rightarrow> string \<Rightarrow> string list" where
  "labels acc [] = [acc]"
| "labels acc (c # cs) = (if c = CHR ''.'' then acc # labels [] cs else labels (acc @ [c]) cs)"

definition isModelledHost :: "string \<Rightarrow> bool" where
  "isModelledHost host =
     (host \<noteq> [] \<and> hd host \<noteq> CHR ''.''
      \<and> lastLabel host \<noteq> [] \<and> isLowerLetter (hd (lastLabel host))
      \<and> list_all (\<lambda>l. take 4 l \<noteq> ''xn--'') (labels [] host))"

definition defaultPort :: "string \<Rightarrow> int" where
  "defaultPort scheme = (if scheme = ''https://'' then 443 else 80)"

text \<open>
  The authority is the input up to the first slash, backslash, \<open>?\<close> or \<open>#\<close>; one that
  holds credentials (an \<open>@\<close>) is outside the model.
\<close>

definition originAfterScheme :: "string \<Rightarrow> string \<Rightarrow> error + string" where
  "originAfterScheme scheme rest =
     (let authority = takeWhile (\<lambda>c. c \<notin> set (CHR 0x5C # ''/?#'')) rest;
          host = takeWhile isHostChar authority; after = dropWhile isHostChar authority
      in if CHR ''@'' \<in> set authority \<or> \<not> isModelledHost host then Inl Unmodelled
         else if after = [] then Inr (scheme @ host)
         else if hd after = CHR '':'' then
           (let ds = tl after
            in if \<not> list_all isDigit ds then Inl TypeError
               else if ds = [] then Inr (scheme @ host)
               else if readInt ds > 65535 then Inl TypeError
               else if readInt ds = defaultPort scheme then Inr (scheme @ host)
               else Inr (scheme @ host @ '':'' @ showInt (readInt ds)))
         else Inl Unmodelled)"

definition URL_origin :: "string \<Rightarrow> error + string" where
  "URL_origin baseUrl =
     (if startsWith baseUrl ''https://'' then originAfterScheme ''https://'' (drop 8 baseUrl)
      else if startsWith baseUrl ''http://'' then originAfterScheme ''http://'' (drop 7 baseUrl)
      else Inl Unmodelled)"

text \<open>
  \<open>new URL(origin + path)\<close> for an origin as above. Leading and trailing C0 controls
  and spaces of the input are stripped and tabs and newlines removed; what then follows
  the host must be nothing or begin a path, query or fragment. Platforms differ on
  \<open>^\<close> in a path, which is outside the model, as are code units from 128 on.
\<close>

definition stripTrailing :: "string \<Rightarrow> string" where
  "stripTrailing s = rev (dropWhile isC0OrSpace (rev s))"

definition URL_parse :: "string \<Rightarrow> string \<Rightarrow> error + url" where
  "URL_parse origin path =
     (if \<not> isAscii path \<or> CHR ''^'' \<in> set path then Inl Unmodelled
      else
        (let input = filter (\<lambda>c. \<not> isTabOrNewline c) (stripTrailing path)
         in if input \<noteq> [] \<and> hd input \<notin> set (CHR 0x5C # ''/?#'') then Inl Unmodelled
            else
              (let (segs, rest) = pathStart False input;
                   q = (case rest of
                          [] \<Rightarrow> None
                        | c # cs \<Rightarrow>
                            if c = CHR ''?'' then
                              Some (encodeWith inSpecialQuerySet (takeWhile (\<lambda>x. x \<noteq> CHR ''#'') cs))
                            else None);
                   f = (case dropWhile (\<lambda>x. x \<noteq> CHR ''#'') rest of
                          [] \<Rightarrow> None
                        | c # cs \<Rightarrow> Some (encodeWith inFragmentSet cs))
               in Inr \<lparr>pathname = serializePath segs, query = q, fragment = f\<rparr>)))"

text \<open>The getters \<open>search\<close> and \<open>hash\<close>: empty for a null or empty component.\<close>

definition search :: "url \<Rightarrow> string" where
  "search u = (case query u of None \<Rightarrow> [] | Some q \<Rightarrow> if q = [] then [] else CHR ''?'' # q)"

definition hash :: "url \<Rightarrow> string" where
  "hash u = (case fragment u of None \<Rightarrow> [] | Some f \<Rightarrow> if f = [] then [] else CHR ''#'' # f)"

text \<open>The \<open>pathname\<close> setter: the value is parsed again, from the path start state.\<close>

definition setPathname :: "url \<Rightarrow> string \<Rightarrow> error + url" where
  "setPathname u v =
     (if \<not> isAscii v \<or> CHR ''^'' \<in> set v then Inl Unmodelled
      else Inr (u\<lparr>pathname := serializePath (fst (pathStart True (filter (\<lambda>c. \<not> isTabOrNewline c) v)))\<rparr>))"

text \<open>
  \<open>URLSearchParams\<close>: the query parsed as \<open>application/x-www-form-urlencoded\<close> into a
  list of name-value pairs, and serialised back on every \<open>set\<close>.
\<close>

definition consResult :: "char \<Rightarrow> error + string \<Rightarrow> error + string" where
  "consResult c r = (case r of Inl e \<Rightarrow> Inl e | Inr s \<Rightarrow> Inr (c # s))"

definition plusToSpace :: "char \<Rightarrow> char" where
  "plusToSpace c = (if c = CHR ''+'' then CHR 0x20 else c)"

fun percentDecode :: "string \<Rightarrow> error + string" where
  "percentDecode [] = Inr []"
| "percentDecode [c] = Inr [plusToSpace c]"
| "percentDecode [c, d] = Inr [plusToSpace c, plusToSpace d]"
| "percentDecode (c # h1 # h2 # rest) =
     (if c = CHR ''%'' then
        (case (hexVal h1, hexVal h2) of
           (Some a, Some b) \<Rightarrow>
             if 16 * a + b \<ge> 128 then Inl Unmodelled
             else consResult (char_of (16 * a + b)) (percentDecode rest)
         | _ \<Rightarrow> consResult c (percentDecode (h1 # h2 # rest)))
      else consResult (plusToSpace c) (percentDecode (h1 # h2 # rest)))"

fun splitOn :: "char \<Rightarrow> string \<Rightarrow> string list" where
  "splitOn sep [] = [[]]"
| "splitOn sep (c # cs) =
     (if c = sep then [] # splitOn sep cs
      else (case splitOn sep cs of
              [] \<Rightarrow> [[c]]
            | x # xs \<Rightarrow> (c # x) # xs))"

fun mapResult :: "('a \<Rightarrow> error + 'b) \<Rightarrow> 'a list \<Rightarrow> error + 'b list" where
  "mapResult f [] = Inr []"
| "mapResult f (x # xs) =
     (case f x of
        Inl e \<Rightarrow> Inl e
      | Inr y \<Rightarrow> (case mapResult f xs of Inl e \<Rightarrow> Inl e | Inr ys \<Rightarrow> Inr (y # ys)))"

definition parsePair :: "string \<Rightarrow> error + (string \<times> string)" where
  "parsePair seq =
     (let name = takeWhile (\<lambda>c. c \<noteq> CHR ''='') seq;
          val = drop (Suc (length name)) seq
      in case percentDecode name of
           Inl e \<Rightarrow> Inl e
         | Inr n \<Rightarrow> (case percentDecode val of Inl e \<Rightarrow> Inl e | Inr v \<Rightarrow> Inr (n, v)))"

definition searchParams :: "url \<Rightarrow> error + (string \<times> string) list" where
  "searchParams u =
     (case query u of
        None \<Rightarrow> Inr []
      | Some q \<Rightarrow> mapResult parsePair (filter (\<lambda>seq. seq \<noteq> []) (splitOn (CHR ''&'') q)))"

definition isFormSafe :: "char \<Rightarrow> bool" where
  "isFormSafe c =
     ((48 \<le> charCode c \<and> charCode c \<le> 57) \<or> (65 \<le> charCode c \<and> charCode c \<le> 90)
      \<or> (97 \<le> charCode c \<and> charCode c \<le> 122) \<or> c \<in> set ''*-._'')"

definition formEncode :: "string \<Rightarrow> string" where
  "formEncode s =
     concat (map (\<lambda>c. if c = CHR 0x20 then ''+'' else if isFormSafe c then [c] else percentEncode c) s)"

definition serializeParams :: "(string \<times> string) list \<Rightarrow> string" where
  "serializeParams ps = joinWith ''&'' (map (\<lambda>(n, v). formEncode n @ ''='' @ formEncode v) ps)"

text \<open>\<open>set\<close> on the list: the first pair of that name takes the value, the others go.\<close>

fun paramsSet :: "(string \<times> string) list \<Rightarrow> string \<Rightarrow> string \<Rightarrow> (string \<times> string) list" where
  "paramsSet [] k v = [(k, v)]"
| "paramsSet ((k', v') # ps) k v =
     (if k' = k then (k, v) # filter (\<lambda>(n, _). n \<noteq> k) ps
      else (k', v') # paramsSet ps k v)"

text \<open>\<open>searchParams.set\<close>: the list is updated and the URL's query written from it.\<close>

definition searchParamsSet ::
  "url \<times> (string \<times> string) list \<Rightarrow> string \<Rightarrow> string \<Rightarrow> error + (url \<times> (string \<times> string) list)" where
  "searchParamsSet st k v =
     (if \<not> isAscii k \<or> \<not> isAscii v then Inl Unmodelled
      else
        (let ps = paramsSet (snd st) k v; q = serializeParams ps
         in Inr ((fst st)\<lparr>query := (if q = [] then None else Some q)\<rparr>, ps)))"

section \<open>Data model\<close>

text \<open>
  The security schemes of \<open>@superfaceai/ast\<close>: an API key with its placement and
  optional name, or an HTTP scheme. Each carries its id.
\<close>

datatype ApiKeyPlacement = HEADER | BODY | PATH | QUERY

datatype HttpScheme = BASIC | BEARER | DIGEST

datatype SecurityScheme =
    APIKEY string ApiKeyPlacement "string option"
  | HTTP string HttpScheme

text \<open>A request header value is a string or an array of strings.\<close>

datatype headerValue = Single string | Multi "string list"

text \<open>\<open>value.toString()\<close>: an array joins its elements with a comma.\<close>

fun headerToString :: "headerValue \<Rightarrow> string" where
  "headerToString (Single s) = s"
| "headerToString (Multi xs) = joinWith '','' xs"

text \<open>
  The recorded exchange (nock's definition). \<open>reqheaders\<close> is the list of the object's
  own properties in their order; an optional field that is \<open>undefined\<close> is \<open>None\<close>.
\<close>

record RecordingDefinition =
  scope :: string
  path :: string
  reqMethod :: string
  status :: nat
  reqheaders :: "(string \<times> headerValue) list option"
  rawHeaders :: "string list option"
  body :: "json option"
  response :: "json option"

text \<open>
  An editor mutates the exchange in place and may throw: its outcome is the exchange it
  returns with, or the error together with the exchange as it stands at the throw.
\<close>

type_synonym outcome = "(error \<times> RecordingDefinition) + RecordingDefinition"

definition andThen :: "outcome \<Rightarrow> (RecordingDefinition \<Rightarrow> outcome) \<Rightarrow> outcome" where
  "andThen r f = (case r of Inl x \<Rightarrow> Inl x | Inr d \<Rightarrow> f d)"

definition AUTH_HEADER_NAME :: string where
  "AUTH_HEADER_NAME = ''Authorization''"

section \<open>The substring redactor\<close>

text \<open>
  \<open>replaceCredential\<close>: the payload itself for the empty credential, otherwise
  \<open>payload.replace(new RegExp(credential, 'g'), placeholder)\<close>.
\<close>

definition replaceCredential :: "string \<Rightarrow> string \<Rightarrow> string \<Rightarrow> error + string" where
  "replaceCredential payload credential placeholder =
     (if credential \<noteq> [] then regexReplaceAll credential placeholder payload
      else Inr payload)"

section \<open>Exchange field editors\<close>

text \<open>
  The loop of \<open>replaceCredentialInHeaders\<close> over the entries that contain the
  credential: each assigns the redacted string to its header name.
\<close>

fun replaceHeaderEntries ::
  "(string \<times> headerValue) list \<Rightarrow> string \<Rightarrow> string \<Rightarrow> (string \<times> headerValue) list
     \<Rightarrow> (error \<times> (string \<times> headerValue) list) + (string \<times> headerValue) list" where
  "replaceHeaderEntries [] credential placeholder hs = Inr hs"
| "replaceHeaderEntries ((headerName, headerValue) # es) credential placeholder hs =
     (case replaceCredential (headerToString headerValue) credential placeholder of
        Inl e \<Rightarrow> Inl (e, hs)
      | Inr s \<Rightarrow>
          replaceHeaderEntries es credential placeholder (AList.update headerName (Single s) hs))"

definition replaceCredentialInHeaders :: "RecordingDefinition \<Rightarrow> string \<Rightarrow> string \<Rightarrow> outcome" where
  "replaceCredentialInHeaders definition credential placeholder =
     (case reqheaders definition of
        None \<Rightarrow> Inr definition
      | Some hs \<Rightarrow>
          (case replaceHeaderEntries
                  (filter (\<lambda>(n, v). str_includes (headerToString v) credential) hs)
                  credential placeholder hs of
             Inl (e, hs') \<Rightarrow> Inl (e, definition\<lparr>reqheaders := Some hs'\<rparr>)
           | Inr hs' \<Rightarrow> Inr (definition\<lparr>reqheaders := Some hs'\<rparr>)))"

definition replaceCredentialInRawHeaders :: "RecordingDefinition \<Rightarrow> string \<Rightarrow> string \<Rightarrow> outcome" where
  "replaceCredentialInRawHeaders definition credential placeholder =
     (case rawHeaders definition of
        None \<Rightarrow> Inr definition
      | Some hs \<Rightarrow>
          (case mapResult (\<lambda>header. replaceCredential header credential placeholder) hs of
             Inl e \<Rightarrow> Inl (e, definition)
           | Inr hs' \<Rightarrow> Inr (definition\<lparr>rawHeaders := Some hs'\<rparr>)))"

definition replaceCredentialInBody :: "RecordingDefinition \<Rightarrow> string \<Rightarrow> string \<Rightarrow> outcome" where
  "replaceCredentialInBody definition credential placeholder =
     (case body definition of
        None \<Rightarrow> Inr definition
      | Some b \<Rightarrow>
          if b \<noteq> JStr [] then
            (let text = JSON_stringify b
             in if str_includes text credential then
                  (case replaceCredential text credential placeholder of
                     Inl e \<Rightarrow> Inl (e, definition)
                   | Inr text' \<Rightarrow>
                       (case JSON_parse text' of
                          Inl e \<Rightarrow> Inl (e, definition)
                        | Inr v \<Rightarrow> Inr (definition\<lparr>body := Some v\<rparr>)))
                else Inr definition)
          else Inr definition)"

definition replaceCredentialInResponse :: "RecordingDefinition \<Rightarrow> string \<Rightarrow> string \<Rightarrow> outcome" where
  "replaceCredentialInResponse definition credential placeholder =
     (case response definition of
        None \<Rightarrow> Inr definition
      | Some r \<Rightarrow>
          if truthy r then
            (case replaceCredential (JSON_stringify r) credential placeholder of
               Inl e \<Rightarrow> Inl (e, definition)
             | Inr text' \<Rightarrow>
                 (case JSON_parse text' of
                    Inl e \<Rightarrow> Inl (e, definition)
                  | Inr v \<Rightarrow> Inr (definition\<lparr>response := Some v\<rparr>)))
          else Inr definition)"

definition replaceCredentialInScope :: "RecordingDefinition \<Rightarrow> string \<Rightarrow> string \<Rightarrow> outcome" where
  "replaceCredentialInScope definition credential placeholder =
     (if str_includes (scope definition) credential then
        (case replaceCredential (scope definition) credential placeholder of
           Inl e \<Rightarrow> Inl (e, definition)
         | Inr s \<Rightarrow> Inr (definition\<lparr>scope := s\<rparr>))
      else Inr definition)"

text \<open>\<open>new URL(new URL(baseUrl).origin + definition.path)\<close>.\<close>

definition definitionURL :: "string \<Rightarrow> RecordingDefinition \<Rightarrow> error + url" where
  "definitionURL baseUrl definition =
     (case URL_origin baseUrl of
        Inl e \<Rightarrow> Inl e
      | Inr baseUrlOrigin \<Rightarrow> URL_parse baseUrlOrigin (path definition))"

lemma length_paramsSet:
  "k \<in> fst ` set ps \<Longrightarrow> length (paramsSet ps k v) \<le> length ps"
proof (induction ps)
  case Nil
  then show ?case by simp
next
  case (Cons p ps)
  obtain k' v' where p: "p = (k', v')" by (cases p)
  show ?case
  proof (cases "k' = k")
    case True
    have "length (filter (\<lambda>(n, _). n \<noteq> k) ps) \<le> length ps" by (rule length_filter_le)
    with True p show ?thesis by simp
  next
    case False
    with Cons p show ?thesis by auto
  qed
qed

text \<open>
  The loop of \<open>replaceCredentialInQuery\<close> over \<open>searchParams.entries()\<close>: the iterator
  reads the live list by index, so a \<open>set\<close> that removes pairs moves the pairs behind
  them.
\<close>

function queryLoop ::
  "nat \<Rightarrow> url \<times> (string \<times> string) list \<Rightarrow> string \<Rightarrow> string
     \<Rightarrow> error + (url \<times> (string \<times> string) list)" where
  "queryLoop i st credential placeholder =
     (if i < length (snd st) then
        (let (key, queryValue) = snd st ! i
         in if str_includes queryValue credential then
              (case replaceCredential queryValue credential placeholder of
                 Inl e \<Rightarrow> Inl e
               | Inr v \<Rightarrow>
                   (case searchParamsSet st key v of
                      Inl e \<Rightarrow> Inl e
                    | Inr st' \<Rightarrow> queryLoop (Suc i) st' credential placeholder))
            else queryLoop (Suc i) st credential placeholder)
      else Inr st)"
  by pat_completeness auto
termination
proof (relation "measure (\<lambda>(i, st, c, p). length (snd st) - i)")
  show "wf (measure (\<lambda>(i, st, c, p). length (snd st) - i))" by simp
next
  fix i :: nat and st :: "url \<times> (string \<times> string) list" and credential placeholder :: string
    and x :: "string \<times> string" and xa y x2 x2a
  assume lt: "i < length (snd st)" and x: "x = snd st ! i" and xy: "(xa, y) = x"
    and set: "searchParamsSet st xa x2 = Inr x2a"
  from lt x xy have "xa \<in> fst ` set (snd st)"
    by (metis fst_conv image_eqI nth_mem)
  then have "length (paramsSet (snd st) xa x2) \<le> length (snd st)" by (rule length_paramsSet)
  moreover from set have "snd x2a = paramsSet (snd st) xa x2"
    by (auto simp: searchParamsSet_def Let_def split: if_splits)
  ultimately show "((Suc i, x2a, credential, placeholder), (i, st, credential, placeholder))
      \<in> measure (\<lambda>(i, st, c, p). length (snd st) - i)"
    using lt by simp
next
  fix i :: nat and st :: "url \<times> (string \<times> string) list" and credential placeholder :: string
    and x :: "string \<times> string" and xa y
  assume "i < length (snd st)"
  then show "((Suc i, st, credential, placeholder), (i, st, credential, placeholder))
      \<in> measure (\<lambda>(i, st, c, p). length (snd st) - i)"
    by simp
qed

declare queryLoop.simps [simp del]

definition replaceCredentialInQuery ::
  "RecordingDefinition \<Rightarrow> string \<Rightarrow> string \<Rightarrow> string \<Rightarrow> outcome" where
  "replaceCredentialInQuery definition baseUrl credential placeholder =
     (case definitionURL baseUrl definition of
        Inl e \<Rightarrow> Inl (e, definition)
      | Inr u \<Rightarrow>
          (case searchParams u of
             Inl e \<Rightarrow> Inl (e, definition)
           | Inr ps \<Rightarrow>
               (case queryLoop 0 (u, ps) credential placeholder of
                  Inl e \<Rightarrow> Inl (e, definition)
                | Inr (u', ps') \<Rightarrow>
                    Inr (definition\<lparr>path := pathname u' @ search u' @ hash u'\<rparr>))))"

definition replaceCredentialInPath ::
  "RecordingDefinition \<Rightarrow> string \<Rightarrow> string \<Rightarrow> string \<Rightarrow> outcome" where
  "replaceCredentialInPath definition baseUrl credential placeholder =
     (case definitionURL baseUrl definition of
        Inl e \<Rightarrow> Inl (e, definition)
      | Inr u \<Rightarrow>
          (case (if str_includes (pathname u) credential then
                   (case replaceCredential (pathname u) credential placeholder of
                      Inl e \<Rightarrow> Inl e
                    | Inr s \<Rightarrow> setPathname u s)
                 else Inr u) of
             Inl e \<Rightarrow> Inl (e, definition)
           | Inr u' \<Rightarrow> Inr (definition\<lparr>path := pathname u' @ search u' @ hash u'\<rparr>)))"

section \<open>Scheme redaction\<close>

text \<open>
  \<open>reqheaders[name]\<close> reads an own property of the plain object or one it inherits from
  \<open>Object.prototype\<close>. \<open>inheritedText\<close> is what \<open>toString()\<close> gives for the inherited
  property of a name: a built-in function prints as its source text, the prototype
  itself (under \<open>__proto__\<close>) as \<open>[object Object]\<close>; no other name is inherited.
\<close>

definition inheritedText :: "string \<Rightarrow> string option" where
  "inheritedText name =
     (if name = ''__proto__'' then Some ''[object Object]''
      else if name = ''constructor'' then Some ''function Object() { [native code] }''
      else if name \<in> set [''__defineGetter__'', ''__defineSetter__'', ''hasOwnProperty'',
                           ''__lookupGetter__'', ''__lookupSetter__'', ''isPrototypeOf'',
                           ''propertyIsEnumerable'', ''toString'', ''valueOf'', ''toLocaleString'']
      then Some (''function '' @ name @ ''() { [native code] }'')
      else None)"

text \<open>\<open>reqheaders[name].toString()\<close>, or \<open>None\<close> when \<open>reqheaders[name]\<close> is undefined.\<close>

definition headerText :: "(string \<times> headerValue) list \<Rightarrow> string \<Rightarrow> string option" where
  "headerText hs name =
     (case map_of hs name of
        Some v \<Rightarrow> Some (headerToString v)
      | None \<Rightarrow> inheritedText name)"

text \<open>
  \<open>reqheaders[name] = value\<close> for a string: an own property takes the value, a new one
  is added behind the others; the inherited setter of \<open>__proto__\<close> ignores a string.
\<close>

definition assignHeader ::
  "(string \<times> headerValue) list \<Rightarrow> string \<Rightarrow> string \<Rightarrow> (string \<times> headerValue) list" where
  "assignHeader hs name s =
     (if map_of hs name = None \<and> name = ''__proto__'' then hs
      else AList.update name (Single s) hs)"

definition replaceApiKeyInHeader ::
  "RecordingDefinition \<Rightarrow> string option \<Rightarrow> string \<Rightarrow> string \<Rightarrow> outcome" where
  "replaceApiKeyInHeader definition schemeName credential placeholder =
     andThen
       (case schemeName of
          None \<Rightarrow> Inr definition
        | Some name \<Rightarrow>
            (case reqheaders definition of
               None \<Rightarrow> Inr definition
             | Some hs \<Rightarrow>
                 (case headerText hs name of
                    None \<Rightarrow> Inr definition
                  | Some text \<Rightarrow>
                      (case replaceCredential text credential placeholder of
                         Inl e \<Rightarrow> Inl (e, definition)
                       | Inr s \<Rightarrow>
                           Inr (definition\<lparr>reqheaders := Some (assignHeader hs name s)\<rparr>)))))
       (\<lambda>d. replaceCredentialInHeaders d credential placeholder)"

definition replaceApiKeyInBody :: "RecordingDefinition \<Rightarrow> string \<Rightarrow> string \<Rightarrow> outcome" where
  "replaceApiKeyInBody definition credential placeholder =
     replaceCredentialInBody definition credential placeholder"

definition replaceApiKeyInPath ::
  "RecordingDefinition \<Rightarrow> string \<Rightarrow> string \<Rightarrow> string \<Rightarrow> outcome" where
  "replaceApiKeyInPath definition baseUrl credential placeholder =
     replaceCredentialInPath definition baseUrl credential placeholder"

definition replaceApiKeyInQuery ::
  "RecordingDefinition \<Rightarrow> string option \<Rightarrow> string \<Rightarrow> string \<Rightarrow> string \<Rightarrow> outcome" where
  "replaceApiKeyInQuery definition schemeName baseUrl credential placeholder =
     (case definitionURL baseUrl definition of
        Inl e \<Rightarrow> Inl (e, definition)
      | Inr u \<Rightarrow>
          andThen
            (case schemeName of
               None \<Rightarrow> Inr definition
             | Some name \<Rightarrow>
                 (case searchParams u of
                    Inl e \<Rightarrow> Inl (e, definition)
                  | Inr ps \<Rightarrow>
                      (case map_of ps name of
                         None \<Rightarrow> Inr definition
                       | Some v \<Rightarrow>
                           if str_includes v credential then
                             (case searchParamsSet (u, ps) name placeholder of
                                Inl e \<Rightarrow> Inl (e, definition)
                              | Inr (u', ps') \<Rightarrow>
                                  Inr (definition\<lparr>path := pathname u' @ search u' @ hash u'\<rparr>))
                           else Inr definition)))
            (\<lambda>d. replaceCredentialInQuery d baseUrl credential placeholder))"

definition replaceApiKey ::
  "RecordingDefinition \<Rightarrow> ApiKeyPlacement \<Rightarrow> string option \<Rightarrow> string \<Rightarrow> string \<Rightarrow> string \<Rightarrow> outcome" where
  "replaceApiKey definition placement schemeName baseUrl credential placeholder =
     (case placement of
        HEADER \<Rightarrow>
          andThen (replaceApiKeyInHeader definition schemeName credential placeholder)
            (\<lambda>d. replaceCredentialInRawHeaders d credential placeholder)
      | BODY \<Rightarrow> replaceApiKeyInBody definition credential placeholder
      | PATH \<Rightarrow> replaceApiKeyInPath definition baseUrl credential placeholder
      | QUERY \<Rightarrow> replaceApiKeyInQuery definition schemeName baseUrl credential placeholder)"

text \<open>
  \<open>replaceBasicAuth\<close> and \<open>replaceBearerAuth\<close>: an \<open>Authorization\<close> header that is
  present is overwritten.
\<close>

definition replaceAuthHeader :: "string \<Rightarrow> RecordingDefinition \<Rightarrow> string \<Rightarrow> RecordingDefinition" where
  "replaceAuthHeader prefix definition placeholder =
     (case reqheaders definition of
        None \<Rightarrow> definition
      | Some hs \<Rightarrow>
          (case map_of hs AUTH_HEADER_NAME of
             None \<Rightarrow> definition
           | Some v \<Rightarrow>
               definition\<lparr>reqheaders :=
                 Some (AList.update AUTH_HEADER_NAME (Single (prefix @ placeholder)) hs)\<rparr>))"

definition replaceBasicAuth :: "RecordingDefinition \<Rightarrow> string \<Rightarrow> RecordingDefinition" where
  "replaceBasicAuth definition placeholder = replaceAuthHeader ''Basic '' definition placeholder"

definition replaceBearerAuth :: "RecordingDefinition \<Rightarrow> string \<Rightarrow> RecordingDefinition" where
  "replaceBearerAuth definition placeholder = replaceAuthHeader ''Bearer '' definition placeholder"

definition replaceCredentialInDefinition ::
  "RecordingDefinition \<Rightarrow> SecurityScheme \<Rightarrow> string \<Rightarrow> string \<Rightarrow> string \<Rightarrow> outcome" where
  "replaceCredentialInDefinition definition scheme baseUrl credential placeholder =
     andThen
       (case scheme of
          APIKEY ident placement schemeName \<Rightarrow>
            replaceApiKey definition placement schemeName baseUrl credential placeholder
        | HTTP ident BASIC \<Rightarrow>
            replaceCredentialInRawHeaders (replaceBasicAuth definition placeholder)
              credential placeholder
        | HTTP ident BEARER \<Rightarrow>
            replaceCredentialInRawHeaders (replaceBearerAuth definition placeholder)
              credential placeholder
        | HTTP ident DIGEST \<Rightarrow>
            Inl (UnexpectedError ''Digest auth not implemented'', definition))
       (\<lambda>d. replaceCredentialInResponse d credential placeholder)"

section \<open>Parameter redaction\<close>

definition replaceParameterInDefinition ::
  "RecordingDefinition \<Rightarrow> string \<Rightarrow> string \<Rightarrow> string \<Rightarrow> outcome" where
  "replaceParameterInDefinition definition baseUrl credential placeholder =
     andThen (replaceCredentialInHeaders definition credential placeholder) (\<lambda>d1.
     andThen (replaceCredentialInRawHeaders d1 credential placeholder) (\<lambda>d2.
     andThen (replaceCredentialInBody d2 credential placeholder) (\<lambda>d3.
     andThen (replaceCredentialInResponse d3 credential placeholder) (\<lambda>d4.
     andThen (replaceCredentialInScope d4 credential placeholder) (\<lambda>d5.
     andThen (replaceCredentialInPath d5 baseUrl credential placeholder) (\<lambda>d6.
     replaceCredentialInQuery d6 baseUrl credential placeholder))))))"

section \<open>JSON values the platform can hold\<close>

text \<open>
  An object is in the platform's property order when defining its properties one after
  the other, in the listed order, gives the list itself: the names are distinct, the
  array-index names come first in ascending order, the other names follow.
\<close>

definition wfObj :: "(string \<times> json) list \<Rightarrow> bool" where
  "wfObj kvs = (foldl (\<lambda>acc kv. objSet acc (fst kv) (snd kv)) [] kvs = kvs)"

text \<open>
  A value the model stands for: integers within \<open>2^53 - 1\<close>, objects in the platform's
  property order.
\<close>

fun wfJson :: "json \<Rightarrow> bool" where
  "wfJson JNull = True"
| "wfJson (JBool b) = True"
| "wfJson (JNum n) = (\<bar>n\<bar> \<le> 9007199254740991)"
| "wfJson (JStr s) = True"
| "wfJson (JArr xs) = list_all wfJson xs"
| "wfJson (JObj kvs) = (wfObj kvs \<and> list_all (\<lambda>kv. wfJson (snd kv)) kvs)"

text \<open>What follows a value inside a serialised JSON text: nothing, a comma or a closing bracket.\<close>

definition okRest :: "string \<Rightarrow> bool" where
  "okRest rest = (rest = [] \<or> hd rest \<in> set '',]}'')"

text \<open>The first character of a serialised value: not white space and not a closing bracket.\<close>

definition startChar :: "char \<Rightarrow> bool" where
  "startChar c = (\<not> isWs c \<and> c \<noteq> CHR '']'' \<and> c \<noteq> CHR ''}'')"

section \<open>Secrets and exchanges on which redaction can be undone\<close>

text \<open>A character that stands for itself in a pattern.\<close>

definition isPlainChar :: "char \<Rightarrow> bool" where
  "isPlainChar c = (c \<noteq> CHR 0x5C \<and> c \<notin> set ''^$.*+?()[]{}|'')"

text \<open>The texts of an exchange that redaction and restoration read.\<close>

definition exchangeStrings :: "RecordingDefinition \<Rightarrow> string list" where
  "exchangeStrings d =
     scope d # path d
       # (case reqheaders d of None \<Rightarrow> [] | Some hs \<Rightarrow> map (\<lambda>(n, v). headerToString v) hs)
       @ (case rawHeaders d of None \<Rightarrow> [] | Some rh \<Rightarrow> rh)
       @ (case body d of None \<Rightarrow> [] | Some b \<Rightarrow> [JSON_stringify b])
       @ (case response d of None \<Rightarrow> [] | Some r \<Rightarrow> [JSON_stringify r])"

text \<open>A request-header value that is a string, not an array.\<close>

fun isString :: "headerValue \<Rightarrow> bool" where
  "isString (Single s) = True"
| "isString (Multi xs) = False"

section \<open>Restoration\<close>

text \<open>
  Modelled from the spec: the substring redactor as the spec words it (section 4.1), a
  global literal replacement of every occurrence of the secret by the placeholder,
  scanning from the left, and the payload itself for the empty secret. The code's
  redactor is \<open>replaceCredential\<close> above; this one is what restoration uses.
\<close>

function literalReplaceAll :: "string \<Rightarrow> string \<Rightarrow> string \<Rightarrow> string" where
  "literalReplaceAll secret placeholder payload =
     (if secret = [] \<or> payload = [] then payload
      else if startsWith payload secret then
        placeholder @ literalReplaceAll secret placeholder (drop (length secret) payload)
      else hd payload # literalReplaceAll secret placeholder (tl payload))"
  by pat_completeness auto
termination
  by (relation "measure (\<lambda>(secret, placeholder, payload). length payload)") auto

declare literalReplaceAll.simps [simp del]

text \<open>Every header value replaced by the literal redaction of its string form.\<close>

definition redactHeaders ::
  "string \<Rightarrow> string \<Rightarrow> (string \<times> headerValue) list \<Rightarrow> (string \<times> headerValue) list" where
  "redactHeaders c p hs =
     map (\<lambda>(n, v). (n, Single (literalReplaceAll c p (headerToString v)))) hs"

text \<open>
  Modelled from the spec: the restoration of a string. The functions that restore a
  transcript on load (\<open>loadCredentialsToScope\<close> and \<open>loadParamsToScope\<close> of
  \<open>nock.utils\<close>) are not among the sources; section 4.3 of the spec says of them:
  wherever a placeholder is found, substitute the real secret value.
\<close>

definition restoreString :: "string \<Rightarrow> string \<Rightarrow> string \<Rightarrow> string" where
  "restoreString payload credential placeholder = literalReplaceAll placeholder credential payload"

text \<open>
  Modelled from the spec: the restoration of a request-header value, a string or each
  string of an array.
\<close>

fun restoreHeaderValue :: "headerValue \<Rightarrow> string \<Rightarrow> string \<Rightarrow> headerValue" where
  "restoreHeaderValue (Single s) credential placeholder = Single (restoreString s credential placeholder)"
| "restoreHeaderValue (Multi xs) credential placeholder =
     Multi (map (\<lambda>s. restoreString s credential placeholder) xs)"

text \<open>
  Modelled from the spec: the restoration of a body or response, mirroring the body
  editor (section 4.2): the serialised JSON text is restored and parsed again.
\<close>

definition restoreJson :: "json option \<Rightarrow> string \<Rightarrow> string \<Rightarrow> error + json option" where
  "restoreJson v credential placeholder =
     (case v of
        None \<Rightarrow> Inr None
      | Some j \<Rightarrow>
          (case JSON_parse (restoreString (JSON_stringify j) credential placeholder) of
             Inl e \<Rightarrow> Inl e
           | Inr j' \<Rightarrow> Inr (Some j')))"

text \<open>
  Modelled from the spec: the restoration of every field of an exchange that holds text
  (scope, path, request headers, raw headers, body, response).
\<close>

definition restoreFields :: "RecordingDefinition \<Rightarrow> string \<Rightarrow> string \<Rightarrow> outcome" where
  "restoreFields definition credential placeholder =
     (case restoreJson (body definition) credential placeholder of
        Inl e \<Rightarrow> Inl (e, definition)
      | Inr b \<Rightarrow>
          (case restoreJson (response definition) credential placeholder of
             Inl e \<Rightarrow> Inl (e, definition)
           | Inr r \<Rightarrow>
               Inr (definition\<lparr>scope := restoreString (scope definition) credential placeholder,
                      path := restoreString (path definition) credential placeholder,
                      reqheaders := map_option
                        (map (\<lambda>(n, v). (n, restoreHeaderValue v credential placeholder)))
                        (reqheaders definition),
                      rawHeaders := map_option
                        (map (\<lambda>h. restoreString h credential placeholder))
                        (rawHeaders definition),
                      body := b, response := r\<rparr>)))"

text \<open>
  Modelled from the spec: the scheme restorer, the inverse mapping of the scheme redactor
  (section 4.3). The Digest scheme is unsupported in either direction.
\<close>

definition restoreCredentialInDefinition ::
  "RecordingDefinition \<Rightarrow> SecurityScheme \<Rightarrow> string \<Rightarrow> string \<Rightarrow> outcome" where
  "restoreCredentialInDefinition definition scheme credential placeholder =
     (case scheme of
        APIKEY ident placement schemeName \<Rightarrow> restoreFields definition credential placeholder
      | HTTP ident BASIC \<Rightarrow> restoreFields definition credential placeholder
      | HTTP ident BEARER \<Rightarrow> restoreFields definition credential placeholder
      | HTTP ident DIGEST \<Rightarrow> Inl (UnexpectedError ''Digest auth not implemented'', definition))"

section \<open>Sample exchanges\<close>

text \<open>The exchange of the repository's tests, and variations of it used as concrete inputs.\<close>

definition sampleExchange :: RecordingDefinition where
  "sampleExchange =
     \<lparr>scope = ''https://localhost'', path = ''/get?text=123'', reqMethod = ''GET'',
      status = 200, reqheaders = None, rawHeaders = None, body = None, response = None\<rparr>"

definition acceptArrayExchange :: RecordingDefinition where
  "acceptArrayExchange = sampleExchange\<lparr>reqheaders := Some [(''Accept'', Multi [''a'', ''b''])]\<rparr>"

definition tokenHeadersExchange :: RecordingDefinition where
  "tokenHeadersExchange =
     sampleExchange\<lparr>reqheaders :=
       Some [(''X-Token'', Multi [''secret'', ''v2'']), (''Accept'', Single ''text/plain'')]\<rparr>"

definition apiKeyBodyExchange :: RecordingDefinition where
  "apiKeyBodyExchange = sampleExchange\<lparr>body := Some (JObj [(''my_api_key'', JStr ''secret'')])\<rparr>"

definition spacedPathExchange :: RecordingDefinition where
  "spacedPathExchange = sampleExchange\<lparr>path := ''/a b?q=x y''\<rparr>"

definition echoExchange :: RecordingDefinition where
  "echoExchange = sampleExchange\<lparr>response := Some (JObj [(''token'', JStr ''secret'')])\<rparr>"

definition zeroResponseExchange :: RecordingDefinition where
  "zeroResponseExchange = sampleExchange\<lparr>response := Some (JNum 0)\<rparr>"



definition basicAuthExchange :: RecordingDefinition where
  "basicAuthExchange =
     sampleExchange\<lparr>reqheaders := Some [(''Authorization'', Single ''Basic dXNlcjpwYXNz'')]\<rparr>"

definition encodedQueryExchange :: RecordingDefinition where
  "encodedQueryExchange = sampleExchange\<lparr>path := ''/get?q=a%20b''\<rparr>"

definition fullExchange :: RecordingDefinition where
  "fullExchange =
     sampleExchange\<lparr>reqheaders := Some [(''Accept'', Single ''text/plain'')],
       rawHeaders := Some [''Content-Type'', ''application/json''],
       body := Some (JObj [(''a'', JNum 1)]),
       response := Some (JArr [JStr ''x'', JNull])\<rparr>"

definition spacedSecretPathExchange :: RecordingDefinition where
  "spacedSecretPathExchange = sampleExchange\<lparr>path := ''/a b/secret''\<rparr>"

section \<open>Properties of the substring redactor\<close>

lemma parsePattern_a_dot_b_plus_c:
  "parsePattern ''a.b+c'' =
     Inr [(Lit CHR ''a'', Once), (AnyChar, Once), (Lit CHR ''b'', Plus), (Lit CHR ''c'', Once)]"
  by (simp add: parsePattern.simps isQuantChar_def isUnmodelledChar_def quantOf_def)

text \<open>
  C1 (the substring redactor replaces the secret as literal text only, also when it
  holds regex metacharacters such as \<open>a.b+c\<close>). The code hands the secret to
  \<open>new RegExp\<close> unescaped: in the payload \<open>key=a.b+c\<close> the literal secret \<open>a.b+c\<close> is
  left in place, and in \<open>key=aXbbc\<close>, where the secret does not occur, \<open>aXbbc\<close> is
  replaced.
\<close>

theorem replaceCredential_reads_secret_as_pattern:
  "str_includes ''key=a.b+c'' ''a.b+c''
   \<and> replaceCredential ''key=a.b+c'' ''a.b+c'' ''<P>'' = Inr ''key=a.b+c''
   \<and> \<not> str_includes ''key=aXbbc'' ''a.b+c''
   \<and> replaceCredential ''key=aXbbc'' ''a.b+c'' ''<P>'' = Inr ''key=<P>''"
  by (simp add: replaceCredential_def regexReplaceAll_def parsePattern_a_dot_b_plus_c)

lemma startsWith_Nil [simp]: "startsWith s []"
  by (cases s) simp_all

lemma str_includes_Nil [simp]: "str_includes s []"
  by (cases s) simp_all

lemma replaceCredential_empty [simp]: "replaceCredential payload [] placeholder = Inr payload"
  by (simp add: replaceCredential_def)

section \<open>Scheme redaction: the Digest scheme\<close>

text \<open>
  C7: redacting with an HTTP scheme of kind Digest throws \<open>UnexpectedError\<close> for every
  exchange, base URL, credential and placeholder. No editor has run when it is thrown
  and none runs afterwards: the exchange at the throw is the exchange passed in.
\<close>

theorem digest_throws:
  "replaceCredentialInDefinition d (HTTP ident DIGEST) baseUrl credential placeholder
     = Inl (UnexpectedError ''Digest auth not implemented'', d)"
  by (simp add: replaceCredentialInDefinition_def andThen_def)

section \<open>The body editor\<close>

text \<open>
  C10: when the body is undefined, is the empty string, or its serialised JSON text
  does not contain the secret, the body editor returns the exchange as it was: no field
  changes and the body is not re-parsed. (A text that does not contain the secret implies
  a non-empty secret, as every text contains the empty string.)
\<close>

theorem body_without_secret_untouched:
  assumes "body d = None \<or> body d = Some (JStr [])
           \<or> (\<exists>b. body d = Some b \<and> \<not> str_includes (JSON_stringify b) credential)"
  shows "replaceCredentialInBody d credential placeholder = Inr d"
  using assms by (auto simp: replaceCredentialInBody_def Let_def)

section \<open>The headers editor\<close>

lemma replaceHeaderEntries_result:
  assumes "replaceHeaderEntries es c p hs = Inr hs'"
    and "distinct (map fst es)" and "fst ` set es \<subseteq> fst ` set hs"
  shows "map fst hs' = map fst hs
       \<and> (\<forall>(n, v) \<in> set es. \<exists>s. replaceCredential (headerToString v) c p = Inr s
              \<and> map_of hs' n = Some (Single s))
       \<and> (\<forall>k. k \<notin> fst ` set es \<longrightarrow> map_of hs' k = map_of hs k)"
  using assms
proof (induction es arbitrary: hs)
  case Nil
  then show ?case by simp
next
  case (Cons e es)
  obtain n v where e: "e = (n, v)" by (cases e)
  from Cons.prems(1) e obtain s where s: "replaceCredential (headerToString v) c p = Inr s"
    and rest: "replaceHeaderEntries es c p (AList.update n (Single s) hs) = Inr hs'"
    by (auto split: sum.splits)
  let ?hs1 = "AList.update n (Single s) hs"
  from Cons.prems(3) e have nin: "n \<in> fst ` set hs" by auto
  then have keys1: "map fst ?hs1 = map fst hs" by (simp add: update_keys)
  then have sub: "fst ` set es \<subseteq> fst ` set ?hs1"
    using Cons.prems(3) by (metis (no_types, lifting) insert_subset list.set_map list.simps(15) set_map image_insert)
  from Cons.prems(2) have dist: "distinct (map fst es)" and nes: "n \<notin> fst ` set es"
    using e by auto
  from Cons.IH [OF rest dist sub]
  have ih1: "map fst hs' = map fst ?hs1"
    and ih2: "\<forall>(n, v) \<in> set es. \<exists>s. replaceCredential (headerToString v) c p = Inr s
              \<and> map_of hs' n = Some (Single s)"
    and ih3: "\<forall>k. k \<notin> fst ` set es \<longrightarrow> map_of hs' k = map_of ?hs1 k"
    by blast+
  have "map_of hs' n = Some (Single s)" using ih3 nes by (simp add: update_conv')
  moreover have "\<forall>k. k \<notin> fst ` set (e # es) \<longrightarrow> map_of hs' k = map_of hs k"
    using ih3 e by (auto simp: update_conv')
  ultimately show ?case using ih1 keys1 ih2 s e by auto
qed


lemma replaceCredentialInHeaders_result:
  assumes hs: "reqheaders d = Some hs" and dist: "distinct (map fst hs)"
    and res: "replaceCredentialInHeaders d c p = Inr d'"
  shows "\<exists>hs'. d' = d\<lparr>reqheaders := Some hs'\<rparr> \<and> map fst hs' = map fst hs
           \<and> (\<forall>(n, v) \<in> set hs.
                 if str_includes (headerToString v) c
                 then \<exists>s. replaceCredential (headerToString v) c p = Inr s
                        \<and> map_of hs' n = Some (Single s)
                 else map_of hs' n = Some v)"
proof -
  let ?es = "filter (\<lambda>(n, v). str_includes (headerToString v) c) hs"
  from res hs obtain hs' where loop: "replaceHeaderEntries ?es c p hs = Inr hs'"
    and d': "d' = d\<lparr>reqheaders := Some hs'\<rparr>"
    by (auto simp: replaceCredentialInHeaders_def split: sum.splits)
  have dist_es: "distinct (map fst ?es)" using dist by (rule distinct_map_filter)
  have sub: "fst ` set ?es \<subseteq> fst ` set hs" by auto
  from replaceHeaderEntries_result [OF loop dist_es sub]
  have keys: "map fst hs' = map fst hs"
    and hit: "\<forall>(n, v) \<in> set ?es. \<exists>s. replaceCredential (headerToString v) c p = Inr s
              \<and> map_of hs' n = Some (Single s)"
    and miss: "\<forall>k. k \<notin> fst ` set ?es \<longrightarrow> map_of hs' k = map_of hs k"
    by blast+
  have "if str_includes (headerToString v) c
        then \<exists>s. replaceCredential (headerToString v) c p = Inr s \<and> map_of hs' n = Some (Single s)
        else map_of hs' n = Some v" if nv: "(n, v) \<in> set hs" for n v
  proof (cases "str_includes (headerToString v) c")
    case True
    with nv have "(n, v) \<in> set ?es" by simp
    with hit True show ?thesis by auto
  next
    case False
    have "n \<notin> fst ` set ?es"
    proof
      assume "n \<in> fst ` set ?es"
      then obtain v' where v': "(n, v') \<in> set hs" and inc: "str_includes (headerToString v') c"
        by auto
      from dist nv v' have "v' = v" by (meson eq_key_imp_eq_value)
      with inc False show False by simp
    qed
    with miss have "map_of hs' n = map_of hs n" by simp
    also have "\<dots> = Some v" using dist nv by simp
    finally show ?thesis using False by simp
  qed
  with d' keys show ?thesis by blast
qed

text \<open>
  C5, amended: when the headers editor returns, the header names and their order are as
  before, every other field of the exchange is untouched, and each entry is rewritten
  exactly when its value, joined with a comma and no space when it is an array, contains
  the secret; a rewritten entry holds the substring redactor's output on that joined
  string, every other entry keeps its value.
\<close>

theorem headers_editor_entries:
  assumes "reqheaders d = Some hs" and "distinct (map fst hs)"
    and "replaceCredentialInHeaders d credential placeholder = Inr d'"
  shows "\<exists>hs'. d' = d\<lparr>reqheaders := Some hs'\<rparr> \<and> map fst hs' = map fst hs
           \<and> (\<forall>(n, v) \<in> set hs.
                 if str_includes (headerToString v) credential
                 then \<exists>s. replaceCredential (headerToString v) credential placeholder = Inr s
                        \<and> map_of hs' n = Some (Single s)
                 else map_of hs' n = Some v)"
  using assms by (rule replaceCredentialInHeaders_result)

lemma replaceHeaderEntries_empty_secret:
  "replaceHeaderEntries es [] p hs
     = Inr (fold (\<lambda>(n, v). AList.update n (Single (headerToString v))) es hs)"
  by (induction es arbitrary: hs) auto

lemma replaceCredentialInHeaders_empty_returns:
  "\<exists>d'. replaceCredentialInHeaders d [] p = Inr d'"
  by (simp add: replaceCredentialInHeaders_def replaceHeaderEntries_empty_secret split: option.splits)

text \<open>
  C8: an array-valued entry whose comma-joined string contains the secret is overwritten
  with a single string, the redactor's output on the joined string; with the empty
  secret the editor returns and every array-valued entry holds its joined string.
\<close>

theorem headers_editor_joins_arrays:
  assumes "reqheaders d = Some hs" and "distinct (map fst hs)"
    and "(n, Multi xs) \<in> set hs"
  shows "(str_includes (joinWith '','' xs) credential
            \<and> replaceCredentialInHeaders d credential placeholder = Inr d'
          \<longrightarrow> (\<exists>hs' s. reqheaders d' = Some hs'
                 \<and> replaceCredential (joinWith '','' xs) credential placeholder = Inr s
                 \<and> map_of hs' n = Some (Single s)))
       \<and> (\<exists>d'' hs'. replaceCredentialInHeaders d [] placeholder = Inr d''
             \<and> reqheaders d'' = Some hs'
             \<and> map_of hs' n = Some (Single (joinWith '','' xs)))"
proof (intro conjI impI)
  assume a: "str_includes (joinWith '','' xs) credential
            \<and> replaceCredentialInHeaders d credential placeholder = Inr d'"
  from replaceCredentialInHeaders_result [OF assms(1,2) conjunct2 [OF a]] assms(3) a
  show "\<exists>hs' s. reqheaders d' = Some hs'
                 \<and> replaceCredential (joinWith '','' xs) credential placeholder = Inr s
                 \<and> map_of hs' n = Some (Single s)"
    by fastforce
next
  obtain d'' where d'': "replaceCredentialInHeaders d [] placeholder = Inr d''"
    using replaceCredentialInHeaders_empty_returns by blast
  from replaceCredentialInHeaders_result [OF assms(1,2) d''] assms(3)
  show "\<exists>d'' hs'. replaceCredentialInHeaders d [] placeholder = Inr d''
             \<and> reqheaders d'' = Some hs'
             \<and> map_of hs' n = Some (Single (joinWith '','' xs))"
    using d'' by fastforce
qed


theorem body_without_secret_untouched_witness:
  "replaceCredentialInBody apiKeyBodyExchange ''token'' ''<P>'' = Inr apiKeyBodyExchange"
proof -
  have "\<not> str_includes (JSON_stringify (JObj [(''my_api_key'', JStr ''secret'')])) ''token''"
    by (simp add: quoteString_def escapeChar_def charCode_def)
  then show ?thesis
    using body_without_secret_untouched [of apiKeyBodyExchange "''token''" "''<P>''"]
    by (simp add: apiKeyBodyExchange_def sampleExchange_def)
qed

lemma tokenHeaders_redacted:
  "replaceCredentialInHeaders tokenHeadersExchange ''secret'' ''<P>''
     = Inr (tokenHeadersExchange\<lparr>reqheaders :=
         Some [(''X-Token'', Single ''<P>,v2''), (''Accept'', Single ''text/plain'')]\<rparr>)"
  by (simp add: replaceCredentialInHeaders_def tokenHeadersExchange_def sampleExchange_def
      replaceCredential_def regexReplaceAll_def parsePattern.simps isQuantChar_def
      isUnmodelledChar_def)

theorem headers_editor_entries_witness:
  "\<exists>hs'. tokenHeadersExchange\<lparr>reqheaders :=
         Some [(''X-Token'', Single ''<P>,v2''), (''Accept'', Single ''text/plain'')]\<rparr>
       = tokenHeadersExchange\<lparr>reqheaders := Some hs'\<rparr>
     \<and> map fst hs' = [''X-Token'', ''Accept'']
     \<and> (\<exists>s. replaceCredential ''secret,v2'' ''secret'' ''<P>'' = Inr s
            \<and> map_of hs' ''X-Token'' = Some (Single s))
     \<and> map_of hs' ''Accept'' = Some (Single ''text/plain'')"
proof -
  have h: "reqheaders tokenHeadersExchange
      = Some [(''X-Token'', Multi [''secret'', ''v2'']), (''Accept'', Single ''text/plain'')]"
    by (simp add: tokenHeadersExchange_def)
  have d: "distinct (map fst [(''X-Token'', Multi [''secret'', ''v2'']),
      (''Accept'', Single ''text/plain'')])"
    by simp
  show ?thesis
    using headers_editor_entries [OF h d tokenHeaders_redacted] by simp
qed

text \<open>
  The claim C5 as stated (joined with a comma and a space) fails: the value
  \<open>['a', 'b']\<close> joined with \<open>', '\<close> contains the secret \<open>a, b\<close>, and the editor leaves
  the entry as it is; it does not contain the secret \<open>a,b\<close>, and the editor rewrites it.
\<close>

theorem headers_editor_comma_space_counterexample:
  "str_includes (joinWith '', '' [''a'', ''b'']) ''a, b''
   \<and> replaceCredentialInHeaders acceptArrayExchange ''a, b'' ''<P>'' = Inr acceptArrayExchange
   \<and> \<not> str_includes (joinWith '', '' [''a'', ''b'']) ''a,b''
   \<and> replaceCredentialInHeaders acceptArrayExchange ''a,b'' ''<P>''
       = Inr (acceptArrayExchange\<lparr>reqheaders := Some [(''Accept'', Single ''<P>'')]\<rparr>)"
  by (simp add: replaceCredentialInHeaders_def acceptArrayExchange_def sampleExchange_def
      replaceCredential_def regexReplaceAll_def parsePattern.simps isQuantChar_def
      isUnmodelledChar_def)

theorem headers_editor_joins_arrays_witness:
  "(\<exists>hs' s. reqheaders (tokenHeadersExchange\<lparr>reqheaders :=
         Some [(''X-Token'', Single ''<P>,v2''), (''Accept'', Single ''text/plain'')]\<rparr>) = Some hs'
       \<and> replaceCredential (joinWith '','' [''secret'', ''v2'']) ''secret'' ''<P>'' = Inr s
       \<and> map_of hs' ''X-Token'' = Some (Single s))
   \<and> (\<exists>d'' hs'. replaceCredentialInHeaders tokenHeadersExchange [] ''<P>'' = Inr d''
       \<and> reqheaders d'' = Some hs'
       \<and> map_of hs' ''X-Token'' = Some (Single (joinWith '','' [''secret'', ''v2''])))"
proof -
  have h: "reqheaders tokenHeadersExchange
      = Some [(''X-Token'', Multi [''secret'', ''v2'']), (''Accept'', Single ''text/plain'')]"
    by (simp add: tokenHeadersExchange_def)
  have d: "distinct (map fst [(''X-Token'', Multi [''secret'', ''v2'']),
      (''Accept'', Single ''text/plain'')])"
    by simp
  have m: "(''X-Token'', Multi [''secret'', ''v2''])
      \<in> set [(''X-Token'', Multi [''secret'', ''v2'']), (''Accept'', Single ''text/plain'')]"
    by simp
  have i: "str_includes (joinWith '','' [''secret'', ''v2'']) ''secret''" by simp
  show ?thesis
    using headers_editor_joins_arrays [OF h d m, of "''secret''" "''<P>''"
        "tokenHeadersExchange\<lparr>reqheaders :=
           Some [(''X-Token'', Single ''<P>,v2''), (''Accept'', Single ''text/plain'')]\<rparr>"]
      i tokenHeaders_redacted
    by simp
qed

lemma queryLoop_no_match:
  assumes "\<forall>(k, v) \<in> set ps. \<not> str_includes v c"
  shows "queryLoop i (u, ps) c p = Inr (u, ps)"
proof (induction "length ps - i" arbitrary: i)
  case 0
  then show ?case by (simp add: queryLoop.simps)
next
  case (Suc n)
  then have lt: "i < length ps" by simp
  then have "ps ! i \<in> set ps" by simp
  with assms have no: "\<not> str_includes (snd (ps ! i)) c" by (cases "ps ! i") auto
  from Suc have "n = length ps - Suc i" by simp
  from Suc.hyps(1) [OF this] lt no show ?case
    by (subst queryLoop.simps) (simp add: case_prod_beta)
qed

lemma spaced_url:
  "definitionURL ''https://localhost'' spacedPathExchange
     = Inr \<lparr>pathname = ''/a%20b'', query = Some ''q=x%20y'', fragment = None\<rparr>"
  by code_simp

lemma spaced_path_result:
  "replaceCredentialInPath spacedPathExchange ''https://localhost'' ''secret'' ''<P>''
     = Inr (spacedPathExchange\<lparr>path := ''/a%20b?q=x%20y''\<rparr>)"
  by code_simp

lemma spaced_query_result:
  "replaceCredentialInQuery spacedPathExchange ''https://localhost'' ''secret'' ''<P>''
     = Inr (spacedPathExchange\<lparr>path := ''/a%20b?q=x%20y''\<rparr>)"
  by code_simp

section \<open>The path and query editors\<close>

text \<open>
  C9: the path editor and the query editor assign \<open>path\<close> from the parsed URL's
  pathname, search and hash also when the secret occurs nowhere, so a pass that matches
  nothing can change \<open>path\<close>: the path \<open>/a b?q=x y\<close> comes back percent-encoded as
  \<open>/a%20b?q=x%20y\<close> from either editor.
\<close>

theorem path_reassigned_without_occurrence:
  "(definitionURL baseUrl d = Inr u \<and> \<not> str_includes (pathname u) credential
      \<longrightarrow> replaceCredentialInPath d baseUrl credential placeholder
            = Inr (d\<lparr>path := pathname u @ search u @ hash u\<rparr>))
   \<and> (definitionURL baseUrl d = Inr u \<and> searchParams u = Inr ps
        \<and> (\<forall>(k, v) \<in> set ps. \<not> str_includes v credential)
      \<longrightarrow> replaceCredentialInQuery d baseUrl credential placeholder
            = Inr (d\<lparr>path := pathname u @ search u @ hash u\<rparr>))
   \<and> \<not> str_includes (scope spacedPathExchange) ''secret''
   \<and> \<not> str_includes (path spacedPathExchange) ''secret''
   \<and> replaceCredentialInPath spacedPathExchange ''https://localhost'' ''secret'' ''<P>''
        = Inr (spacedPathExchange\<lparr>path := ''/a%20b?q=x%20y''\<rparr>)
   \<and> replaceCredentialInQuery spacedPathExchange ''https://localhost'' ''secret'' ''<P>''
        = Inr (spacedPathExchange\<lparr>path := ''/a%20b?q=x%20y''\<rparr>)
   \<and> path spacedPathExchange \<noteq> ''/a%20b?q=x%20y''"
proof (intro conjI impI)
  assume "definitionURL baseUrl d = Inr u \<and> \<not> str_includes (pathname u) credential"
  then show "replaceCredentialInPath d baseUrl credential placeholder
      = Inr (d\<lparr>path := pathname u @ search u @ hash u\<rparr>)"
    by (simp add: replaceCredentialInPath_def)
next
  assume a: "definitionURL baseUrl d = Inr u \<and> searchParams u = Inr ps
        \<and> (\<forall>(k, v) \<in> set ps. \<not> str_includes v credential)"
  then have "queryLoop 0 (u, ps) credential placeholder = Inr (u, ps)"
    by (simp add: queryLoop_no_match)
  with a show "replaceCredentialInQuery d baseUrl credential placeholder
      = Inr (d\<lparr>path := pathname u @ search u @ hash u\<rparr>)"
    by (simp add: replaceCredentialInQuery_def)
next
  show "\<not> str_includes (scope spacedPathExchange) ''secret''"
    by (simp add: spacedPathExchange_def sampleExchange_def)
  show "\<not> str_includes (path spacedPathExchange) ''secret''"
    by (simp add: spacedPathExchange_def sampleExchange_def)
  show "replaceCredentialInPath spacedPathExchange ''https://localhost'' ''secret'' ''<P>''
        = Inr (spacedPathExchange\<lparr>path := ''/a%20b?q=x%20y''\<rparr>)"
    by (rule spaced_path_result)
  show "replaceCredentialInQuery spacedPathExchange ''https://localhost'' ''secret'' ''<P>''
        = Inr (spacedPathExchange\<lparr>path := ''/a%20b?q=x%20y''\<rparr>)"
    by (rule spaced_query_result)
  show "path spacedPathExchange \<noteq> ''/a%20b?q=x%20y''"
    by (simp add: spacedPathExchange_def sampleExchange_def)
qed

lemma spaced_searchParams:
  "searchParams \<lparr>pathname = ''/a%20b'', query = Some ''q=x%20y'', fragment = None\<rparr>
     = Inr [(''q'', ''x y'')]"
  by code_simp

theorem path_reassigned_without_occurrence_witness:
  "definitionURL ''https://localhost'' spacedPathExchange
     = Inr \<lparr>pathname = ''/a%20b'', query = Some ''q=x%20y'', fragment = None\<rparr>
   \<and> \<not> str_includes ''/a%20b'' ''secret''
   \<and> replaceCredentialInPath spacedPathExchange ''https://localhost'' ''secret'' ''<P>''
        = Inr (spacedPathExchange\<lparr>path := ''/a%20b'' @ ''?q=x%20y''\<rparr>)
   \<and> \<not> str_includes ''x y'' ''secret''
   \<and> replaceCredentialInQuery spacedPathExchange ''https://localhost'' ''secret'' ''<P>''
        = Inr (spacedPathExchange\<lparr>path := ''/a%20b'' @ ''?q=x%20y''\<rparr>)"
proof -
  have n1: "\<not> str_includes ''/a%20b'' ''secret''" by simp
  have n2: "\<not> str_includes ''x y'' ''secret''" by simp
  show ?thesis
    using path_reassigned_without_occurrence [of "''https://localhost''" spacedPathExchange
        "\<lparr>pathname = ''/a%20b'', query = Some ''q=x%20y'', fragment = None\<rparr>"
        "''secret''" "''<P>''" "[(''q'', ''x y'')]"]
      spaced_url spaced_searchParams n1 n2
    by (simp add: search_def hash_def)
qed

section \<open>What each editor leaves untouched\<close>

lemma andThen_Inr:
  "andThen r f = Inr d' \<Longrightarrow> \<exists>d1. r = Inr d1 \<and> f d1 = Inr d'"
  by (cases r) (simp_all add: andThen_def)

lemma headers_frame:
  "replaceCredentialInHeaders d c p = Inr d' \<Longrightarrow>
     scope d' = scope d \<and> path d' = path d \<and> reqMethod d' = reqMethod d \<and> status d' = status d
     \<and> rawHeaders d' = rawHeaders d \<and> body d' = body d \<and> response d' = response d"
  by (auto simp: replaceCredentialInHeaders_def split: option.splits sum.splits)

lemma rawHeaders_frame:
  "replaceCredentialInRawHeaders d c p = Inr d' \<Longrightarrow>
     scope d' = scope d \<and> path d' = path d \<and> reqMethod d' = reqMethod d \<and> status d' = status d
     \<and> reqheaders d' = reqheaders d \<and> body d' = body d \<and> response d' = response d"
  by (auto simp: replaceCredentialInRawHeaders_def split: option.splits sum.splits)


lemma body_frame:
  "replaceCredentialInBody d c p = Inr d' \<Longrightarrow>
     scope d' = scope d \<and> path d' = path d \<and> reqMethod d' = reqMethod d \<and> status d' = status d
     \<and> reqheaders d' = reqheaders d \<and> rawHeaders d' = rawHeaders d \<and> response d' = response d"
  by (auto simp: replaceCredentialInBody_def Let_def split: option.splits sum.splits if_splits)


lemma scope_frame:
  "replaceCredentialInScope d c p = Inr d' \<Longrightarrow>
     path d' = path d \<and> reqMethod d' = reqMethod d \<and> status d' = status d
     \<and> reqheaders d' = reqheaders d \<and> rawHeaders d' = rawHeaders d \<and> body d' = body d
     \<and> response d' = response d"
  by (auto simp: replaceCredentialInScope_def split: sum.splits if_splits)

lemma path_frame:
  "replaceCredentialInPath d b c p = Inr d' \<Longrightarrow>
     scope d' = scope d \<and> reqMethod d' = reqMethod d \<and> status d' = status d
     \<and> reqheaders d' = reqheaders d \<and> rawHeaders d' = rawHeaders d \<and> body d' = body d
     \<and> response d' = response d"
  by (auto simp: replaceCredentialInPath_def split: sum.splits if_splits)

lemma query_frame:
  "replaceCredentialInQuery d b c p = Inr d' \<Longrightarrow>
     scope d' = scope d \<and> reqMethod d' = reqMethod d \<and> status d' = status d
     \<and> reqheaders d' = reqheaders d \<and> rawHeaders d' = rawHeaders d \<and> body d' = body d
     \<and> response d' = response d"
  by (auto simp: replaceCredentialInQuery_def split: sum.splits if_splits)

lemma authHeader_frame:
  "scope (replaceAuthHeader prefix d p) = scope d \<and> path (replaceAuthHeader prefix d p) = path d
   \<and> reqMethod (replaceAuthHeader prefix d p) = reqMethod d
   \<and> status (replaceAuthHeader prefix d p) = status d
   \<and> rawHeaders (replaceAuthHeader prefix d p) = rawHeaders d
   \<and> body (replaceAuthHeader prefix d p) = body d
   \<and> response (replaceAuthHeader prefix d p) = response d"
  by (auto simp: replaceAuthHeader_def split: option.splits)

lemma apiKeyInHeader_frame:
  assumes "replaceApiKeyInHeader d n c p = Inr d'"
  shows "scope d' = scope d \<and> path d' = path d \<and> reqMethod d' = reqMethod d \<and> status d' = status d
     \<and> rawHeaders d' = rawHeaders d \<and> body d' = body d \<and> response d' = response d"
proof -
  from assms obtain d1 where
    first: "(case n of
          None \<Rightarrow> Inr d
        | Some name \<Rightarrow>
            (case reqheaders d of
               None \<Rightarrow> Inr d
             | Some hs \<Rightarrow>
                 (case headerText hs name of
                    None \<Rightarrow> Inr d
                  | Some text \<Rightarrow>
                      (case replaceCredential text c p of
                         Inl e \<Rightarrow> Inl (e, d)
                       | Inr s \<Rightarrow>
                           Inr (d\<lparr>reqheaders := Some (assignHeader hs name s)\<rparr>))))) = Inr d1"
    and h: "replaceCredentialInHeaders d1 c p = Inr d'"
    unfolding replaceApiKeyInHeader_def by (blast dest: andThen_Inr)
  from first have "scope d1 = scope d \<and> path d1 = path d
      \<and> reqMethod d1 = reqMethod d \<and> status d1 = status d
      \<and> rawHeaders d1 = rawHeaders d \<and> body d1 = body d \<and> response d1 = response d"
    by (auto split: option.splits sum.splits)
  with headers_frame [OF h] show ?thesis by simp
qed

lemma apiKeyInQuery_frame:
  assumes "replaceApiKeyInQuery d n b c p = Inr d'"
  shows "scope d' = scope d \<and> reqMethod d' = reqMethod d \<and> status d' = status d
     \<and> reqheaders d' = reqheaders d \<and> rawHeaders d' = rawHeaders d \<and> body d' = body d
     \<and> response d' = response d"
proof -
  from assms obtain u where u: "definitionURL b d = Inr u"
    by (auto simp: replaceApiKeyInQuery_def split: sum.splits)
  with assms obtain d1 where
    first: "(case n of
               None \<Rightarrow> Inr d
             | Some name \<Rightarrow>
                 (case searchParams u of
                    Inl e \<Rightarrow> Inl (e, d)
                  | Inr ps \<Rightarrow>
                      (case map_of ps name of
                         None \<Rightarrow> Inr d
                       | Some v \<Rightarrow>
                           if str_includes v c then
                             (case searchParamsSet (u, ps) name p of
                                Inl e \<Rightarrow> Inl (e, d)
                              | Inr (u', ps') \<Rightarrow>
                                  Inr (d\<lparr>path := pathname u' @ search u' @ hash u'\<rparr>))
                           else Inr d))) = Inr d1"
    and h: "replaceCredentialInQuery d1 b c p = Inr d'"
    unfolding replaceApiKeyInQuery_def by (auto dest: andThen_Inr)
  from first have "scope d1 = scope d
      \<and> reqMethod d1 = reqMethod d \<and> status d1 = status d \<and> reqheaders d1 = reqheaders d
      \<and> rawHeaders d1 = rawHeaders d \<and> body d1 = body d \<and> response d1 = response d"
    by (auto split: option.splits sum.splits if_splits)
  with query_frame [OF h] show ?thesis by simp
qed

text \<open>No step of scheme redaction before the response editor touches the response.\<close>

lemma replaceApiKey_response:
  assumes "replaceApiKey d pl n b c p = Inr d'"
  shows "response d' = response d"
proof (cases pl)
  case HEADER
  with assms obtain d1 where "replaceApiKeyInHeader d n c p = Inr d1"
    and "replaceCredentialInRawHeaders d1 c p = Inr d'"
    by (auto simp: replaceApiKey_def dest!: andThen_Inr)
  then show ?thesis using apiKeyInHeader_frame rawHeaders_frame by metis
next
  case BODY
  with assms show ?thesis
    using body_frame by (simp add: replaceApiKey_def replaceApiKeyInBody_def)
next
  case PATH
  with assms show ?thesis
    using path_frame by (simp add: replaceApiKey_def replaceApiKeyInPath_def)
next
  case QUERY
  with assms show ?thesis
    using apiKeyInQuery_frame by (simp add: replaceApiKey_def)
qed

lemma scheme_steps_response:
  assumes "replaceCredentialInDefinition d scheme b c p = Inr d'"
  shows "\<exists>d1. response d1 = response d \<and> replaceCredentialInResponse d1 c p = Inr d'"
proof (cases scheme)
  case (APIKEY ident pl n)
  with assms obtain d1 where "replaceApiKey d pl n b c p = Inr d1"
    and "replaceCredentialInResponse d1 c p = Inr d'"
    by (auto simp: replaceCredentialInDefinition_def dest!: andThen_Inr)
  then show ?thesis using replaceApiKey_response by blast
next
  case (HTTP ident h)
  show ?thesis
  proof (cases h)
    case BASIC
    with HTTP assms obtain d1
      where r: "replaceCredentialInRawHeaders (replaceBasicAuth d p) c p = Inr d1"
      and "replaceCredentialInResponse d1 c p = Inr d'"
      by (auto simp: replaceCredentialInDefinition_def dest!: andThen_Inr)
    moreover from rawHeaders_frame [OF r] have "response d1 = response d"
      using authHeader_frame by (simp add: replaceBasicAuth_def)
    ultimately show ?thesis by blast
  next
    case BEARER
    with HTTP assms obtain d1
      where r: "replaceCredentialInRawHeaders (replaceBearerAuth d p) c p = Inr d1"
      and "replaceCredentialInResponse d1 c p = Inr d'"
      by (auto simp: replaceCredentialInDefinition_def dest!: andThen_Inr)
    moreover from rawHeaders_frame [OF r] have "response d1 = response d"
      using authHeader_frame by (simp add: replaceBearerAuth_def)
    ultimately show ?thesis by blast
  next
    case DIGEST
    with HTTP assms show ?thesis
      by (simp add: replaceCredentialInDefinition_def andThen_def)
  qed
qed

section \<open>The response editor in scheme redaction\<close>

text \<open>
  C6, amended: when scheme redaction returns (any API-key placement, Basic or Bearer; a
  Digest scheme throws before the response editor is reached), a response that is defined
  and truthy has been replaced by the parse of its serialised JSON text after the
  substring redactor ran over it; a response that is undefined or falsy (the empty
  string, \<open>0\<close>, \<open>false\<close>, \<open>null\<close>) is left as it is.
\<close>

theorem response_editor_in_scheme_redaction:
  assumes "replaceCredentialInDefinition d scheme baseUrl credential placeholder = Inr d'"
  shows "(case response d of
            None \<Rightarrow> response d' = None
          | Some r \<Rightarrow>
              if truthy r then
                (\<exists>text v. replaceCredential (JSON_stringify r) credential placeholder = Inr text
                    \<and> JSON_parse text = Inr v \<and> response d' = Some v)
              else response d' = Some r)"
proof -
  from scheme_steps_response [OF assms] obtain d1 where same: "response d1 = response d"
    and r: "replaceCredentialInResponse d1 credential placeholder = Inr d'"
    by blast
  from r same show ?thesis
    by (auto simp: replaceCredentialInResponse_def split: option.splits sum.splits if_splits)
qed

lemma echo_redacted:
  "replaceCredentialInDefinition echoExchange (HTTP ''bearer'' BEARER) ''https://localhost''
      ''secret'' ''<P>''
     = Inr (echoExchange\<lparr>response := Some (JObj [(''token'', JStr ''<P>'')])\<rparr>)"
  by code_simp

theorem response_editor_in_scheme_redaction_witness:
  "replaceCredentialInDefinition echoExchange (HTTP ''bearer'' BEARER) ''https://localhost''
      ''secret'' ''<P>''
     = Inr (echoExchange\<lparr>response := Some (JObj [(''token'', JStr ''<P>'')])\<rparr>)
   \<and> truthy (JObj [(''token'', JStr ''secret'')])
   \<and> (\<exists>text v. replaceCredential (JSON_stringify (JObj [(''token'', JStr ''secret'')]))
                    ''secret'' ''<P>'' = Inr text
         \<and> JSON_parse text = Inr v
         \<and> Some (JObj [(''token'', JStr ''<P>'')]) = Some v)"
  using response_editor_in_scheme_redaction [OF echo_redacted] echo_redacted
  by (simp add: echoExchange_def sampleExchange_def)

text \<open>
  The claim C6 as stated fails on a falsy response and on the Digest scheme. The response
  \<open>0\<close> is defined; the round trip of the claim would turn it into \<open>1\<close> for the secret
  \<open>0\<close> and the placeholder \<open>1\<close>, and the code leaves it \<open>0\<close>. With a Digest scheme the
  response that echoes the secret is not edited.
\<close>

theorem response_editor_counterexample:
  "response zeroResponseExchange = Some (JNum 0)
   \<and> replaceCredential (JSON_stringify (JNum 0)) ''0'' ''1'' = Inr ''1''
   \<and> JSON_parse ''1'' = Inr (JNum 1)
   \<and> replaceCredentialInDefinition zeroResponseExchange (APIKEY ''api-key'' BODY (Some ''api_key''))
        ''https://localhost'' ''0'' ''1''
       = Inr zeroResponseExchange
   \<and> replaceCredentialInDefinition echoExchange (HTTP ''digest'' DIGEST)
        ''https://localhost'' ''secret'' ''<P>''
       = Inl (UnexpectedError ''Digest auth not implemented'', echoExchange)"
  by code_simp

section \<open>API key in a header\<close>





section \<open>JSON text read back\<close>

lemma charCode_char_of [simp]: "n < 256 \<Longrightarrow> charCode (char_of n) = n"
  by (simp add: charCode_def)

lemma char_of_charCode [simp]: "char_of (charCode c) = c"
  by (simp add: charCode_def)

lemma charCode_less [simp]: "charCode c < 256"
  by (simp add: charCode_def)

lemma charCode_inject: "charCode a = charCode b \<Longrightarrow> a = b"
  by (metis char_of_charCode)

lemma hexVal_hexChar: "d < 16 \<Longrightarrow> hexVal (hexChar d) = Some d"
  by (simp add: hexVal_def hexChar_def isDigit_def)

lemma charCode_lits [simp]:
  "charCode (CHR 0x22) = 34" "charCode (CHR 0x5C) = 92" "charCode (CHR 0x08) = 8"
  "charCode (CHR 0x09) = 9" "charCode (CHR 0x0A) = 10" "charCode (CHR 0x0C) = 12"
  "charCode (CHR 0x0D) = 13" "charCode (CHR ''0'') = 48" "charCode (CHR ''u'') = 117"
  "charCode (CHR 0x20) = 32" "charCode (CHR ''-'') = 45"
  by (simp_all add: charCode_def)

lemma hexVal_zero [simp]: "hexVal (CHR ''0'') = Some 0"
  by (simp add: hexVal_def isDigit_def)

lemma parseStringBody_escapeChar:
  "parseStringBody (escapeChar c @ rest)
     = (case parseStringBody rest of Inl e \<Rightarrow> Inl e | Inr (s, r) \<Rightarrow> Inr (c # s, r))"
proof -
  consider (quote) "c = CHR 0x22" | (bs) "c = CHR 0x5C" | (b) "c = CHR 0x08"
    | (t) "c = CHR 0x09" | (n) "c = CHR 0x0A" | (f) "c = CHR 0x0C" | (r) "c = CHR 0x0D"
    | (ctl) "charCode c < 32" "c \<notin> {CHR 0x08, CHR 0x09, CHR 0x0A, CHR 0x0C, CHR 0x0D}"
    | (plain) "charCode c \<ge> 32" "c \<noteq> CHR 0x22" "c \<noteq> CHR 0x5C"
    by fastforce
  then show ?thesis
  proof cases
    case ctl
    have hi: "charCode c div 16 < 8" using ctl(1) by simp
    have lo: "charCode c mod 16 < 16" by simp
    have c22: "c \<noteq> CHR 0x22" "c \<noteq> CHR 0x5C" using ctl(1) by auto
    have recon: "char_of (16 * (charCode c div 16) + charCode c mod 16) = c" by simp
    from ctl c22 hi lo recon show ?thesis
      by (simp add: escapeChar_def hexVal_hexChar split: sum.splits prod.splits)
  qed (auto simp: escapeChar_def split: sum.splits prod.splits)
qed

lemma parseStringBody_quoted:
  "parseStringBody (concat (map escapeChar s) @ CHR 0x22 # rest) = Inr (s, rest)"
  by (induction s) (simp_all add: parseStringBody_escapeChar)

lemma isDigit_digitChar: "d < 10 \<Longrightarrow> isDigit (digitChar d)"
  by (simp add: isDigit_def digitChar_def)

lemma digitVal_digitChar: "d < 10 \<Longrightarrow> digitVal (digitChar d) = int d"
  by (simp add: digitVal_def digitChar_def)

lemma digitChar_zero_iff: "d < 10 \<Longrightarrow> digitChar d = CHR ''0'' \<longleftrightarrow> d = 0"
proof -
  assume d: "d < 10"
  have "digitChar d = CHR ''0'' \<longleftrightarrow> charCode (digitChar d) = charCode (CHR ''0'')"
    using charCode_inject by auto
  also have "\<dots> \<longleftrightarrow> d = 0" using d by (simp add: digitChar_def)
  finally show ?thesis .
qed

lemma showNat_nonempty [simp]: "showNat n \<noteq> []"
  by (subst showNat.simps) simp

lemma showNat_digits: "list_all isDigit (showNat n)"
proof (induction n rule: showNat.induct)
  case (1 n)
  show ?case
  proof (cases "n < 10")
    case True
    then show ?thesis by (subst showNat.simps) (simp add: isDigit_digitChar)
  next
    case False
    with 1 show ?thesis by (subst showNat.simps) (simp add: isDigit_digitChar)
  qed
qed

lemma readInt_snoc: "readInt (xs @ [c]) = 10 * readInt xs + digitVal c"
  by (simp add: readInt_def)

lemma readInt_single: "readInt [c] = digitVal c"
  by (simp add: readInt_def)

lemma readInt_showNat: "readInt (showNat n) = int n"
proof (induction n rule: showNat.induct)
  case (1 n)
  show ?case
  proof (cases "n < 10")
    case True
    then show ?thesis by (subst showNat.simps) (simp add: readInt_single digitVal_digitChar)
  next
    case False
    with 1 have "readInt (showNat (n div 10)) = int (n div 10)" by simp
    with False show ?thesis
      by (subst showNat.simps) (simp add: readInt_snoc digitVal_digitChar zdiv_int zmod_int)
  qed
qed

lemma hd_showNat_zero: "hd (showNat n) = CHR ''0'' \<longleftrightarrow> n = 0"
proof (induction n rule: showNat.induct)
  case (1 n)
  show ?case
  proof (cases "n < 10")
    case True
    then show ?thesis by (subst showNat.simps) (simp add: digitChar_zero_iff)
  next
    case False
    with 1 have "hd (showNat (n div 10)) = CHR ''0'' \<longleftrightarrow> n div 10 = 0" by simp
    with False show ?thesis by (subst showNat.simps) simp
  qed
qed

lemma digitChar_0: "digitChar 0 = CHR ''0''"
  using digitChar_zero_iff [of 0] by simp

lemma showNat_zero: "showNat 0 = ''0''"
  by (subst showNat.simps) (simp add: digitChar_0)

lemma isDigit_hd_showNat: "isDigit (hd (showNat n))"
  using showNat_digits [of n] showNat_nonempty [of n]
  by (cases "showNat n") simp_all

text \<open>What may follow a number in a JSON text for the number to end there.\<close>

lemma takeWhile_digits_showNat:
  assumes "rest = [] \<or> \<not> isDigit (hd rest)"
  shows "takeWhile isDigit (showNat n @ rest) = showNat n"
proof -
  have "takeWhile isDigit rest = []" using assms by (cases rest) auto
  moreover have "\<forall>x \<in> set (showNat n). isDigit x"
    using showNat_digits [of n] by (simp add: list_all_iff)
  ultimately show ?thesis by (simp add: takeWhile_append2)
qed

lemma parseDigits_showNat:
  assumes small: "n \<le> 9007199254740991"
    and rest: "rest = [] \<or> (\<not> isDigit (hd rest) \<and> hd rest \<notin> set ''.eE'')"
  shows "parseDigits (showNat n @ rest) = Inr (int n, rest)"
proof (cases "n = 0")
  case True
  with rest show ?thesis
    by (auto simp: showNat_zero parseDigits_def Let_def isDigit_def readInt_single digitVal_def)
next
  case False
  obtain c cs where cs: "showNat n = c # cs" using showNat_nonempty by (cases "showNat n") auto
  with False have c0: "c \<noteq> CHR ''0''" using hd_showNat_zero [of n] by simp
  from cs have dig: "isDigit c" using isDigit_hd_showNat [of n] by simp
  from rest have "rest = [] \<or> \<not> isDigit (hd rest)" by blast
  then have "takeWhile isDigit (showNat n @ rest) = showNat n"
    by (rule takeWhile_digits_showNat)
  then have tw: "takeWhile isDigit (c # cs @ rest) = c # cs"
    by (simp only: cs append_Cons)
  have rd: "readInt (c # cs) = int n" using readInt_showNat [of n] cs by simp
  from small have le: "int n \<le> 9007199254740991" by simp
  have "parseDigits (showNat n @ rest)
      = (let ds = takeWhile isDigit (c # cs @ rest);
             rest' = drop (length ds) (c # cs @ rest);
             m = readInt ds
         in if rest' \<noteq> [] \<and> hd rest' \<in> set ''.eE'' then Inl Unmodelled
            else if m > 9007199254740991 then Inl Unmodelled
            else Inr (m, rest'))"
    using cs dig c0 by (simp add: parseDigits_def del: takeWhile.simps)
  also have "\<dots> = Inr (int n, rest)"
    unfolding tw using rd rest le by (auto simp: Let_def)
  finally show ?thesis .
qed

lemma parseNumber_showInt:
  assumes small: "\<bar>i\<bar> \<le> 9007199254740991"
    and rest: "rest = [] \<or> (\<not> isDigit (hd rest) \<and> hd rest \<notin> set ''.eE'')"
  shows "parseNumber (showInt i @ rest) = Inr (JNum i, rest)"
proof (cases "i < 0")
  case True
  with small have "nat (- i) \<le> 9007199254740991" by simp
  from parseDigits_showNat [OF this rest] True show ?thesis
    by (simp add: parseNumber_def showInt_def)
next
  case False
  with small have n: "nat i \<le> 9007199254740991" by simp
  obtain c cs where cs: "showNat (nat i) = c # cs"
    using showNat_nonempty by (cases "showNat (nat i)") auto
  then have "isDigit c" using isDigit_hd_showNat [of "nat i"] by simp
  then have "c \<noteq> CHR ''-''" by (auto simp: isDigit_def)
  with parseDigits_showNat [OF n rest] False cs show ?thesis
    by (simp add: parseNumber_def showInt_def)
qed

lemma okRest_num: "okRest rest \<Longrightarrow> rest = [] \<or> (\<not> isDigit (hd rest) \<and> hd rest \<notin> set ''.eE'')"
  by (auto simp: okRest_def isDigit_def charCode_def)

lemma okRest_simps [simp]:
  "okRest []" "okRest (CHR '','' # s)" "okRest (CHR '']'' # s)" "okRest (CHR ''}'' # s)"
  by (simp_all add: okRest_def)

lemma skipWs_Cons: "\<not> isWs c \<Longrightarrow> skipWs (c # cs) = c # cs"
  by (simp add: skipWs_def)

lemma isWs_iff: "isWs c \<longleftrightarrow> c = CHR 0x20 \<or> c = CHR 0x09 \<or> c = CHR 0x0A \<or> c = CHR 0x0D"
  by (simp add: isWs_def)

lemma isDigit_startChar: "isDigit c \<Longrightarrow> startChar c"
  by (auto simp: isDigit_def startChar_def isWs_def charCode_def)

lemma stringify_start: "\<exists>c cs. JSON_stringify v = c # cs \<and> startChar c"
proof (cases v)
  case (JNum i)
  obtain c cs where cs: "showNat (nat (if i < 0 then - i else i)) = c # cs"
    using showNat_nonempty by (metis list.exhaust)
  then have "isDigit c" using isDigit_hd_showNat by (metis list.sel(1))
  with cs JNum show ?thesis
    by (cases "i < 0") (auto simp: showInt_def startChar_def isWs_def dest: isDigit_startChar)
qed (auto simp: startChar_def isWs_def quoteString_def)

lemma parseValue_number:
  assumes "\<bar>i\<bar> \<le> 9007199254740991" and "okRest rest"
  shows "parseValue (Suc f) (showInt i @ rest) = Inr (JNum i, rest)"
proof -
  obtain c cs where cs: "showInt i = c # cs" and c: "c = CHR ''-'' \<or> isDigit c"
  proof (cases "i < 0")
    case True
    then show ?thesis using that by (simp add: showInt_def)
  next
    case False
    obtain c cs where "showNat (nat i) = c # cs"
      using showNat_nonempty by (metis list.exhaust)
    moreover then have "isDigit c" using isDigit_hd_showNat by (metis list.sel(1))
    ultimately show ?thesis using that False by (simp add: showInt_def)
  qed
  from c have nows: "\<not> isWs c" and nq: "c \<noteq> CHR 0x22" and nb: "c \<noteq> CHR ''[''"
    and nc: "c \<noteq> CHR ''{''" and nn: "c \<noteq> CHR ''n''" and nt: "c \<noteq> CHR ''t''"
    and nf: "c \<noteq> CHR ''f''"
    by (auto simp: isDigit_def isWs_def charCode_def)
  have "parseValue (Suc f) (c # cs @ rest) = parseNumber (c # cs @ rest)"
    using nows nq nb nc nn nt nf by (simp add: skipWs_Cons)
  with parseNumber_showInt [OF assms(1) okRest_num [OF assms(2)]] cs show ?thesis by simp
qed

lemma parseValue_string:
  "parseValue (Suc f) (quoteString s @ rest) = Inr (JStr s, rest)"
  by (simp add: quoteString_def skipWs_Cons isWs_def parseStringBody_quoted)

lemma length_joinWith_Cons:
  "ys \<noteq> [] \<Longrightarrow> length (joinWith sep (x # ys)) = length x + length sep + length (joinWith sep ys)"
  by (cases ys) simp_all

lemma joinWith_Cons:
  "ys \<noteq> [] \<Longrightarrow> joinWith sep (x # ys) = x @ sep @ joinWith sep ys"
  by (cases ys) simp_all

lemma parseElems_stringify:
  assumes "xs \<noteq> []"
    and "\<And>x f rest. x \<in> set xs \<Longrightarrow> length (JSON_stringify x) \<le> f \<Longrightarrow> okRest rest
           \<Longrightarrow> parseValue f (JSON_stringify x @ rest) = Inr (x, rest)"
    and "length (joinWith '','' (map JSON_stringify xs)) < f"
  shows "parseElems f (joinWith '','' (map JSON_stringify xs) @ CHR '']'' # rest) = Inr (xs, rest)"
  using assms
proof (induction xs arbitrary: f rule: list_nonempty_induct)
  case (single x)
  then obtain f' where f: "f = Suc f'" and len: "length (JSON_stringify x) \<le> f'"
    by (cases f) auto
  from single(1) [of x f' "CHR '']'' # rest"] len
  have "parseValue f' (JSON_stringify x @ CHR '']'' # rest) = Inr (x, CHR '']'' # rest)" by simp
  with f show ?case by (simp add: skipWs_Cons isWs_def)
next
  case (cons x xs)
  let ?tail = "joinWith '','' (map JSON_stringify xs)"
  from cons.hyps have ne: "map JSON_stringify xs \<noteq> []" by simp
  have joined: "joinWith '','' (map JSON_stringify (x # xs)) = JSON_stringify x @ '','' @ ?tail"
    using joinWith_Cons [OF ne] by simp
  obtain c cs where "JSON_stringify x = c # cs" using stringify_start by blast
  then have pos: "length (JSON_stringify x) \<ge> 1" by simp
  from cons.prems(2) joined obtain f' where f: "f = Suc f'"
    and len: "length (JSON_stringify x) \<le> f'" and len': "length ?tail < f'"
    using pos by (cases f) auto
  from cons.prems(1) [of x f' "CHR '','' # ?tail @ CHR '']'' # rest"] len
  have v: "parseValue f' (JSON_stringify x @ CHR '','' # ?tail @ CHR '']'' # rest)
      = Inr (x, CHR '','' # ?tail @ CHR '']'' # rest)"
    by simp
  have rec: "parseElems f' (?tail @ CHR '']'' # rest) = Inr (xs, rest)"
    using cons.IH [of f'] cons.prems(1) len' by simp
  from f v rec joined show ?case by (simp add: skipWs_Cons isWs_def)
qed

lemma parseMembers_stringify:
  assumes "kvs \<noteq> []"
    and "\<And>kv f rest. kv \<in> set kvs \<Longrightarrow> length (JSON_stringify (snd kv)) \<le> f \<Longrightarrow> okRest rest
           \<Longrightarrow> parseValue f (JSON_stringify (snd kv) @ rest) = Inr (snd kv, rest)"
    and "length (joinWith '','' (map (\<lambda>(k, v). quoteString k @ '':'' @ JSON_stringify v) kvs)) < f"
  shows "parseMembers f acc
           (joinWith '','' (map (\<lambda>(k, v). quoteString k @ '':'' @ JSON_stringify v) kvs) @ CHR ''}'' # rest)
         = Inr (foldl (\<lambda>acc kv. objSet acc (fst kv) (snd kv)) acc kvs, rest)"
  using assms
proof (induction kvs arbitrary: f acc rule: list_nonempty_induct)
  case (single kv)
  obtain k v where kv: "kv = (k, v)" by (cases kv)
  from single(2) kv obtain f' where f: "f = Suc f'" and len: "length (JSON_stringify v) \<le> f'"
    by (cases f) (auto simp: quoteString_def)
  from single(1) [of kv f' "CHR ''}'' # rest"] kv len
  have "parseValue f' (JSON_stringify v @ CHR ''}'' # rest) = Inr (v, CHR ''}'' # rest)" by simp
  with f kv show ?case
    by (simp add: quoteString_def skipWs_Cons isWs_def parseStringBody_quoted)
next
  case (cons kv kvs)
  obtain k v where kv: "kv = (k, v)" by (cases kv)
  let ?M = "\<lambda>(k, v). quoteString k @ '':'' @ JSON_stringify v"
  let ?tail = "joinWith '','' (map ?M kvs)"
  from cons.hyps have ne: "map ?M kvs \<noteq> []" by simp
  have joined: "joinWith '','' (map ?M (kv # kvs)) = quoteString k @ '':'' @ JSON_stringify v @ '','' @ ?tail"
    using joinWith_Cons [OF ne] kv by simp
  from cons.prems(2) joined obtain f' where f: "f = Suc f'"
    and len: "length (JSON_stringify v) \<le> f'" and len': "length ?tail < f'"
    by (cases f) (auto simp: quoteString_def)
  from cons.prems(1) [of kv f' "CHR '','' # ?tail @ CHR ''}'' # rest"] kv len
  have v: "parseValue f' (JSON_stringify v @ CHR '','' # ?tail @ CHR ''}'' # rest)
      = Inr (v, CHR '','' # ?tail @ CHR ''}'' # rest)"
    by simp
  have rec: "parseMembers f' (objSet acc k v) (?tail @ CHR ''}'' # rest)
      = Inr (foldl (\<lambda>acc kv. objSet acc (fst kv) (snd kv)) (objSet acc k v) kvs, rest)"
    using cons.IH [of f' "objSet acc k v"] cons.prems(1) len' by simp
  from f v rec joined kv show ?case
    by (simp add: quoteString_def skipWs_Cons isWs_def parseStringBody_quoted)
qed

lemma parseValue_stringify:
  "wfJson v \<Longrightarrow> length (JSON_stringify v) \<le> f \<Longrightarrow> okRest rest
     \<Longrightarrow> parseValue f (JSON_stringify v @ rest) = Inr (v, rest)"
proof (induction v arbitrary: f rest)
  case JNull
  then obtain f' where "f = Suc f'" by (cases f) auto
  then show ?case by (simp add: skipWs_Cons isWs_def)
next
  case (JBool b)
  then obtain f' where "f = Suc f'" by (cases f) (auto split: if_splits)
  then show ?case by (simp add: skipWs_Cons isWs_def)
next
  case (JNum i)
  then obtain f' where "f = Suc f'"
    using stringify_start [of "JNum i"] by (cases f) auto
  with JNum show ?case using parseValue_number by simp
next
  case (JStr s)
  then obtain f' where "f = Suc f'" by (cases f) (auto simp: quoteString_def)
  then show ?case using parseValue_string by simp
next
  case (JArr xs)
  from JArr.prems(2) obtain f' where f: "f = Suc f'"
    and len: "length (joinWith '','' (map JSON_stringify xs)) < f'"
    by (cases f) auto
  show ?case
  proof (cases "xs = []")
    case True
    with f show ?thesis by (simp add: skipWs_Cons isWs_def)
  next
    case False
    have each: "\<And>x f rest. x \<in> set xs \<Longrightarrow> length (JSON_stringify x) \<le> f \<Longrightarrow> okRest rest
           \<Longrightarrow> parseValue f (JSON_stringify x @ rest) = Inr (x, rest)"
      using JArr.IH JArr.prems(1) by (simp add: list_all_iff)
    from parseElems_stringify [OF False each len]
    have elems: "parseElems f' (joinWith '','' (map JSON_stringify xs) @ CHR '']'' # rest)
        = Inr (xs, rest)" by simp
    obtain x ys where xs: "xs = x # ys" using False by (cases xs) auto
    obtain c cs where c: "JSON_stringify x = c # cs" and sc: "startChar c"
      using stringify_start by blast
    have "\<exists>cs'. joinWith '','' (map JSON_stringify xs) = c # cs'"
      using xs c by (cases ys) simp_all
    then obtain cs' where j: "joinWith '','' (map JSON_stringify xs) = c # cs'" by blast
    from sc have "skipWs (c # cs' @ CHR '']'' # rest) = c # cs' @ CHR '']'' # rest" and "c \<noteq> CHR '']''"
      by (simp_all add: startChar_def skipWs_Cons)
    with f elems j show ?thesis by (simp add: skipWs_Cons isWs_def)
  qed
next
  case (JObj kvs)
  let ?M = "\<lambda>(k, v). quoteString k @ '':'' @ JSON_stringify v"
  from JObj.prems(2) obtain f' where f: "f = Suc f'"
    and len: "length (joinWith '','' (map ?M kvs)) < f'"
    by (cases f) auto
  show ?case
  proof (cases "kvs = []")
    case True
    with f show ?thesis by (simp add: skipWs_Cons isWs_def)
  next
    case False
    have each: "\<And>kv f rest. kv \<in> set kvs \<Longrightarrow> length (JSON_stringify (snd kv)) \<le> f \<Longrightarrow> okRest rest
           \<Longrightarrow> parseValue f (JSON_stringify (snd kv) @ rest) = Inr (snd kv, rest)"
    proof -
      fix kv f rest
      assume kv: "kv \<in> set kvs" and l: "length (JSON_stringify (snd kv)) \<le> f" and r: "okRest rest"
      have "snd kv \<in> Basic_BNFs.snds kv" by (cases kv) simp
      moreover from JObj.prems(1) kv have "wfJson (snd kv)" by (simp add: list_all_iff)
      ultimately show "parseValue f (JSON_stringify (snd kv) @ rest) = Inr (snd kv, rest)"
        using JObj.IH kv l r by blast
    qed
    from parseMembers_stringify [OF False each len, of "[]" rest] JObj.prems(1)
    have members: "parseMembers f' [] (joinWith '','' (map ?M kvs) @ CHR ''}'' # rest)
        = Inr (kvs, rest)" by (simp add: wfObj_def)
    obtain kv ys where kvs: "kvs = kv # ys" using False by (cases kvs) auto
    have "\<exists>cs'. joinWith '','' (map ?M kvs) = CHR 0x22 # cs'"
      using kvs by (cases ys; cases kv) (simp_all add: quoteString_def)
    then obtain cs' where j: "joinWith '','' (map ?M kvs) = CHR 0x22 # cs'" by blast
    with f members show ?thesis by (simp add: skipWs_Cons isWs_def)
  qed
qed

text \<open>Serialising a value and parsing the text gives the value back.\<close>

lemma JSON_roundtrip: "wfJson v \<Longrightarrow> JSON_parse (JSON_stringify v) = Inr v"
  using parseValue_stringify [of v "Suc (length (JSON_stringify v))" "[]"]
  by (simp add: JSON_parse_def skipWs_def)

section \<open>A secret without metacharacters is matched literally\<close>

lemma startsWith_iff: "startsWith s t \<longleftrightarrow> (\<exists>r. s = t @ r)"
  by (induction s t rule: startsWith.induct) auto

lemma startsWith_append [simp]: "startsWith (t @ r) t"
  by (simp add: startsWith_iff)

lemma startsWith_drop: "startsWith s t \<Longrightarrow> t @ drop (length t) s = s"
  by (auto simp: startsWith_iff)

lemma str_includes_iff: "str_includes s t \<longleftrightarrow> (\<exists>a b. s = a @ t @ b)"
proof (induction s)
  case Nil
  then show ?case by auto
next
  case (Cons x xs)
  show ?case
  proof
    assume "str_includes (x # xs) t"
    then consider "startsWith (x # xs) t" | "str_includes xs t" by auto
    then show "\<exists>a b. x # xs = a @ t @ b"
    proof cases
      case 1
      then obtain r where "x # xs = t @ r" by (auto simp: startsWith_iff)
      then have "x # xs = [] @ t @ r" by simp
      then show ?thesis by blast
    next
      case 2
      with Cons obtain a b where "xs = a @ t @ b" by blast
      then have "x # xs = (x # a) @ t @ b" by simp
      then show ?thesis by blast
    qed
  next
    assume "\<exists>a b. x # xs = a @ t @ b"
    then obtain a b where ab: "x # xs = a @ t @ b" by blast
    show "str_includes (x # xs) t"
    proof (cases a)
      case Nil
      with ab have "startsWith (x # xs) t" by (auto simp: startsWith_iff)
      then show ?thesis by simp
    next
      case (Cons y ys)
      with ab have "xs = ys @ t @ b" by simp
      with Cons.IH have "str_includes xs t" by blast
      then show ?thesis by simp
    qed
  qed
qed

lemma isPlainChar_not_special:
  assumes "isPlainChar c"
  shows "c \<noteq> CHR 0x5C" "\<not> isQuantChar c" "\<not> isUnmodelledChar c" "c \<noteq> CHR ''.''"
  using assms by (auto simp: isPlainChar_def isSyntaxChar_def isQuantChar_def isUnmodelledChar_def)

lemma parseAtom_plain: "isPlainChar c \<Longrightarrow> parseAtom (c # rest) = Inr (Lit c, rest)"
  using isPlainChar_not_special [of c] by simp

lemma parseQuant_plain:
  "list_all isPlainChar rest \<Longrightarrow> parseQuant rest = Inr (Once, rest)"
  using isPlainChar_not_special(2) by (cases rest) auto

lemma parsePattern_plain:
  "list_all isPlainChar secret \<Longrightarrow> parsePattern secret = Inr (map (\<lambda>c. (Lit c, Once)) secret)"
proof (induction secret)
  case Nil
  then show ?case by (simp add: parsePattern.simps)
next
  case (Cons c cs)
  then show ?case
    by (subst parsePattern.simps)
      (simp add: parseAtom_plain parseQuant_plain del: parseAtom.simps parseQuant.simps)
qed

lemma matchLen_literal:
  "matchLen (map (\<lambda>c. (Lit c, Once)) secret) s
     = (if startsWith s secret then Some (length secret) else None)"
proof (induction secret arbitrary: s)
  case Nil
  then show ?case by simp
next
  case (Cons c cs)
  then show ?case by (cases s) auto
qed

lemma expandReplacement_no_dollar:
  "CHR ''$'' \<notin> set placeholder \<Longrightarrow> expandReplacement placeholder m pre post = placeholder"
  by (induction placeholder m pre post rule: expandReplacement.induct) auto

lemma replaceFrom_literal:
  assumes "secret \<noteq> []" and "CHR ''$'' \<notin> set placeholder"
  shows "replaceFrom (map (\<lambda>c. (Lit c, Once)) secret) placeholder pre s
           = literalReplaceAll secret placeholder s"
proof (induction s arbitrary: pre rule: length_induct)
  case (1 s)
  show ?case
  proof (cases s)
    case Nil
    with assms show ?thesis
      by (cases secret) (simp_all add: literalReplaceAll.simps)
  next
    case (Cons c cs)
    show ?thesis
    proof (cases "startsWith s secret")
      case True
      from assms(1) obtain k where k: "length secret = Suc k" by (cases secret) auto
      have shorter: "length (drop k cs) < length s" using Cons by simp
      from True have "take (length secret) s = secret" by (auto simp: startsWith_iff)
      with k Cons have tk: "c # take k cs = secret" by simp
      have "replaceFrom (map (\<lambda>c. (Lit c, Once)) secret) placeholder pre s
          = placeholder @ replaceFrom (map (\<lambda>c. (Lit c, Once)) secret) placeholder
              (pre @ c # take k cs) (drop k cs)"
        using True Cons k assms(2) by (simp add: matchLen_literal expandReplacement_no_dollar)
      also have "\<dots> = placeholder @ literalReplaceAll secret placeholder (drop k cs)"
        using 1 shorter by simp
      also have "\<dots> = literalReplaceAll secret placeholder s"
        using True Cons k assms(1) by (subst (2) literalReplaceAll.simps) simp
      finally show ?thesis .
    next
      case False
      have "replaceFrom (map (\<lambda>c. (Lit c, Once)) secret) placeholder pre s
          = c # replaceFrom (map (\<lambda>c. (Lit c, Once)) secret) placeholder (pre @ [c]) cs"
        using False Cons by (simp add: matchLen_literal)
      also have "\<dots> = c # literalReplaceAll secret placeholder cs"
        using 1 Cons by simp
      also have "\<dots> = literalReplaceAll secret placeholder s"
        using False Cons assms(1) by (subst (2) literalReplaceAll.simps) simp
      finally show ?thesis .
    qed
  qed
qed

lemma replaceCredential_literal:
  assumes "secret \<noteq> []" and "list_all isPlainChar secret" and "CHR ''$'' \<notin> set placeholder"
  shows "replaceCredential payload secret placeholder
           = Inr (literalReplaceAll secret placeholder payload)"
  using assms
  by (simp add: replaceCredential_def regexReplaceAll_def parsePattern_plain replaceFrom_literal)

section \<open>Literal replacement and its inverse\<close>

lemma literalReplaceAll_Nil [simp]: "literalReplaceAll secret placeholder [] = []"
  by (simp add: literalReplaceAll.simps)

lemma literalReplaceAll_match:
  "secret \<noteq> [] \<Longrightarrow> s \<noteq> [] \<Longrightarrow> startsWith s secret \<Longrightarrow>
     literalReplaceAll secret placeholder s
       = placeholder @ literalReplaceAll secret placeholder (drop (length secret) s)"
  by (subst literalReplaceAll.simps) simp

lemma literalReplaceAll_step:
  "secret \<noteq> [] \<Longrightarrow> \<not> startsWith (c # cs) secret \<Longrightarrow>
     literalReplaceAll secret placeholder (c # cs) = c # literalReplaceAll secret placeholder cs"
  by (subst literalReplaceAll.simps) simp

lemma literalReplaceAll_absent:
  "\<not> str_includes s secret \<Longrightarrow> literalReplaceAll secret placeholder s = s"
proof (induction s)
  case Nil
  then show ?case by simp
next
  case (Cons c cs)
  then have "secret \<noteq> []" by auto
  with Cons show ?case by (simp add: literalReplaceAll_step)
qed

lemma str_includes_subset: "str_includes s t \<Longrightarrow> set t \<subseteq> set s"
  by (auto simp: str_includes_iff)

lemma literalReplaceAll_foreign:
  assumes "placeholder \<noteq> []" and "hd placeholder \<notin> set s"
  shows "literalReplaceAll placeholder secret s = s"
proof -
  have "\<not> str_includes s placeholder"
  proof
    assume "str_includes s placeholder"
    then have "set placeholder \<subseteq> set s" by (rule str_includes_subset)
    with assms show False by (cases placeholder) auto
  qed
  then show ?thesis by (rule literalReplaceAll_absent)
qed

text \<open>
  Restoring undoes redacting on a string the placeholder's first character does not
  occur in.
\<close>

lemma literalReplaceAll_inverse:
  assumes "secret \<noteq> []" and "placeholder \<noteq> []"
  shows "hd placeholder \<notin> set s \<Longrightarrow>
     literalReplaceAll placeholder secret (literalReplaceAll secret placeholder s) = s"
proof (induction s rule: length_induct)
  case (1 s)
  show ?case
  proof (cases s)
    case Nil
    then show ?thesis by simp
  next
    case (Cons c cs)
    show ?thesis
    proof (cases "startsWith s secret")
      case True
      let ?rest = "drop (length secret) s"
      have shorter: "length ?rest < length s" using assms(1) Cons by simp
      have "set ?rest \<subseteq> set s" by (rule set_drop_subset)
      with 1(2) have foreign: "hd placeholder \<notin> set ?rest" by blast
      have "literalReplaceAll secret placeholder s
          = placeholder @ literalReplaceAll secret placeholder ?rest"
        using True Cons assms(1) by (simp add: literalReplaceAll_match)
      moreover have "literalReplaceAll placeholder secret
            (placeholder @ literalReplaceAll secret placeholder ?rest)
          = secret @ literalReplaceAll placeholder secret (literalReplaceAll secret placeholder ?rest)"
        using assms(2) by (subst literalReplaceAll.simps) simp
      moreover have "literalReplaceAll placeholder secret (literalReplaceAll secret placeholder ?rest)
          = ?rest"
        using 1(1) shorter foreign by blast
      ultimately show ?thesis using startsWith_drop [OF True] by simp
    next
      case False
      from 1(2) Cons have cne: "c \<noteq> hd placeholder" and foreign: "hd placeholder \<notin> set cs"
        by auto
      have "literalReplaceAll secret placeholder s = c # literalReplaceAll secret placeholder cs"
        using False Cons assms(1) by (simp add: literalReplaceAll_step)
      moreover have "\<not> startsWith (c # literalReplaceAll secret placeholder cs) placeholder"
        using cne assms(2) by (cases placeholder) auto
      moreover have "literalReplaceAll placeholder secret (literalReplaceAll secret placeholder cs) = cs"
        using 1(1) Cons foreign by simp
      ultimately show ?thesis using Cons assms(2) by (simp add: literalReplaceAll_step)
    qed
  qed
qed

text \<open>
  After a replacement by a placeholder that shares no character with the secret, the
  secret no longer occurs.
\<close>

lemma literalReplaceAll_gap:
  assumes "secret \<noteq> []" and "placeholder \<noteq> []"
  shows "\<exists>g t u. literalReplaceAll secret placeholder s = g @ t \<and> s = g @ u
           \<and> (t = [] \<or> hd t = hd placeholder)"
proof (induction s)
  case Nil
  then show ?case by simp
next
  case (Cons c cs)
  show ?case
  proof (cases "startsWith (c # cs) secret")
    case True
    have "literalReplaceAll secret placeholder (c # cs)
        = [] @ (placeholder @ literalReplaceAll secret placeholder (drop (length secret) (c # cs)))"
      using True assms(1) by (simp add: literalReplaceAll_match)
    moreover have "c # cs = [] @ (c # cs)" by simp
    moreover have "hd (placeholder @ literalReplaceAll secret placeholder (drop (length secret) (c # cs)))
        = hd placeholder"
      using assms(2) by simp
    ultimately show ?thesis by blast
  next
    case False
    from Cons obtain g t u where r: "literalReplaceAll secret placeholder cs = g @ t"
      and s: "cs = g @ u" and t: "t = [] \<or> hd t = hd placeholder"
      by blast
    have "literalReplaceAll secret placeholder (c # cs) = (c # g) @ t"
      using False assms(1) r by (simp add: literalReplaceAll_step)
    moreover have "c # cs = (c # g) @ u" using s by simp
    ultimately show ?thesis using t by blast
  qed
qed

lemma str_includes_after_foreign_prefix:
  assumes "set p \<inter> set secret = {}" and "secret \<noteq> []"
  shows "str_includes (p @ r) secret \<Longrightarrow> str_includes r secret"
  using assms(1)
proof (induction p)
  case Nil
  then show ?case by simp
next
  case (Cons x xs)
  from Cons.prems(2) have x: "x \<notin> set secret" and xs: "set xs \<inter> set secret = {}" by auto
  have "\<not> startsWith (x # xs @ r) secret"
    using x assms(2) by (cases secret) auto
  with Cons.prems(1) have "str_includes (xs @ r) secret" by simp
  with Cons.IH xs show ?case by blast
qed

lemma literalReplaceAll_removes:
  assumes ne: "secret \<noteq> []" "placeholder \<noteq> []"
    and disj: "set placeholder \<inter> set secret = {}"
  shows "\<not> str_includes (literalReplaceAll secret placeholder s) secret"
proof (induction s rule: length_induct)
  case (1 s)
  show ?case
  proof (cases s)
    case Nil
    with ne show ?thesis by simp
  next
    case (Cons c cs)
    show ?thesis
    proof (cases "startsWith s secret")
      case True
      let ?rest = "drop (length secret) s"
      have "length ?rest < length s" using ne(1) Cons by simp
      with 1 have "\<not> str_includes (literalReplaceAll secret placeholder ?rest) secret" by blast
      then have "\<not> str_includes (placeholder @ literalReplaceAll secret placeholder ?rest) secret"
        using str_includes_after_foreign_prefix [OF disj ne(1)] by blast
      then show ?thesis using True Cons ne(1) by (simp add: literalReplaceAll_match)
    next
      case False
      let ?r = "literalReplaceAll secret placeholder cs"
      from 1 Cons have ih: "\<not> str_includes ?r secret" by simp
      have nostart: "\<not> startsWith (c # ?r) secret"
      proof
        assume st: "startsWith (c # ?r) secret"
        from ne(1) obtain v vs where v: "secret = v # vs" by (cases secret) auto
        with st have cv: "c = v" and "startsWith ?r vs" by auto
        then obtain x where x: "?r = vs @ x" by (auto simp: startsWith_iff)
        from literalReplaceAll_gap [OF ne, of cs] obtain g t u where
          r: "?r = g @ t" and s: "cs = g @ u" and t: "t = [] \<or> hd t = hd placeholder"
          by blast
        from r x have "g @ t = vs @ x" by simp
        then obtain us where "(g = vs @ us \<and> us @ t = x) \<or> (g @ us = vs \<and> t = us @ x)"
          by (auto simp: append_eq_append_conv2)
        then have "\<exists>w. g = vs @ w"
        proof
          assume "g = vs @ us \<and> us @ t = x"
          then show ?thesis by blast
        next
          assume b: "g @ us = vs \<and> t = us @ x"
          show ?thesis
          proof (cases us)
            case Nil
            with b show ?thesis by auto
          next
            case (Cons y ys)
            with b have "t \<noteq> []" and "hd t = y" by auto
            with t have "y = hd placeholder" by simp
            with ne(2) have "y \<in> set placeholder" by (cases placeholder) auto
            moreover from b Cons v have "y \<in> set secret" by auto
            ultimately show ?thesis using disj by blast
          qed
        qed
        then obtain w where "g = vs @ w" by blast
        with s cv v have "c # cs = secret @ (w @ u)" by simp
        then have "startsWith (c # cs) secret" by (simp only: startsWith_append)
        with False Cons show False by simp
      qed
      have "literalReplaceAll secret placeholder s = c # ?r"
        using False Cons ne(1) by (simp add: literalReplaceAll_step)
      with ih nostart show ?thesis by simp
    qed
  qed
qed

end
